theory Spec2Isabelle
  imports Complex_Main "HOL-Library.Multiset" "HOL-Library.Char_ord" "HOL-Library.List_Lexorder"
    "HOL-Library.Product_Lexorder"
begin

section \<open>Data model\<close>

text \<open>
  The cross-association code of \<^verbatim>\<open>dokdo/api/cross_association.py\<close> and the helpers
  of \<^verbatim>\<open>dokdo/api/utils.py\<close>. Floating-point numbers are modelled as reals (no
  rounding, no NaN produced by arithmetic); a missing cell of a pivot table, which pandas
  shows as NaN, is \<open>None\<close>. Labels of samples, taxa and targets are strings, ordered as
  Python orders them (lexicographically by character code).
\<close>

type_synonym label = string

text \<open>The exceptions the code can raise, as values.\<close>

datatype error =
    TypeError string
  | ValueError string
  | KeyError string
  | NameError string
  | LibraryError string

text \<open>
  A pandas DataFrame of numbers: the row labels (samples) and the columns in their order,
  each with its label and its values (one per row).
\<close>

record data_frame =
  df_index :: "label list"
  df_columns :: "(label \<times> real list) list"

text \<open>
  What a caller can pass as \<^verbatim>\<open>artifact\<close>: a qiime2 Artifact (seen through its
  DataFrame view), a path string, a DataFrame, or any other object (with the name of its
  type).
\<close>

datatype artifact =
    ArtifactObject data_frame
  | ArtifactPath string
  | ArtifactFrame data_frame
  | ArtifactOther string

text \<open>
  The library functions the module calls and does not define: loading an artifact from a
  path, the two correlation statistics of scipy (each returns the coefficient and the
  p-value, or raises), the adjusted p-values of statsmodels' \<^verbatim>\<open>multipletests\<close> (its
  result at index 1, for a method name), and the row transforms that the names
  \<^verbatim>\<open>clr\<close> and \<^verbatim>\<open>zscore\<close> would denote if the module bound them. A column selected
  by label is a list of columns: one when the label is unique in the frame.

  \<^verbatim>\<open>sort_values\<close> sorts with numpy's quicksort, which is not stable: the order it
  gives to rows with equal keys is its own. \<open>argsort_ties keys i\<close> is the rank the routine
  gives to position \<open>i\<close> of the key array among the positions that hold an equal key;
  nothing is assumed of it.
\<close>

record externals =
  Artifact_load :: "string \<Rightarrow> error + data_frame"
  pearsonr :: "real list list \<Rightarrow> real list list \<Rightarrow> error + (real \<times> real)"
  spearmanr :: "real list list \<Rightarrow> real list list \<Rightarrow> error + (real \<times> real)"
  multipletests :: "real list \<Rightarrow> string \<Rightarrow> error + real list"
  clr :: "real list \<Rightarrow> real list"
  zscore :: "real list \<Rightarrow> real list"
  argsort_ties :: "real list \<Rightarrow> nat \<Rightarrow> nat"

text \<open>One row of the cross-association table, and the table: its column names in order
  and its rows, each with its index label.\<close>

record assoc_row =
  taxon :: label
  target :: label
  corr :: real
  pval :: real
  adjp :: real

record assoc_table =
  tbl_columns :: "string list"
  tbl_rows :: "(nat \<times> assoc_row) list"

text \<open>A pivoted table: sorted row labels, sorted column labels, and the cells by row.\<close>

record 'a pivot_table =
  pv_index :: "label list"
  pv_columns :: "label list"
  pv_cells :: "'a list list"

section \<open>Helpers: sequencing of calls that may raise\<close>

text \<open>A Python loop that calls \<open>f\<close> on each element in order and stops at the first
  exception.\<close>

fun map_result :: "('a \<Rightarrow> error + 'b) \<Rightarrow> 'a list \<Rightarrow> error + 'b list" where
  "map_result f [] = Inr []"
| "map_result f (x # xs) =
     (case f x of
        Inl e \<Rightarrow> Inl e
      | Inr y \<Rightarrow> (case map_result f xs of Inl e \<Rightarrow> Inl e | Inr ys \<Rightarrow> Inr (y # ys)))"

section \<open>The module's global names\<close>

text \<open>
  The names bound at module level in \<^verbatim>\<open>cross_association.py\<close>: its imports (lines 1-7)
  and its three functions. \<^verbatim>\<open>utils.py\<close> binds \<^verbatim>\<open>np\<close>, \<^verbatim>\<open>pd\<close>, \<^verbatim>\<open>Artifact\<close> and
  its two functions. Reading any other global name raises NameError.
\<close>

definition module_globals :: "string list" where
  "module_globals =
     [''np'', ''pd'', ''sns'', ''plt'', ''spearmanr'', ''pearsonr'', ''multi'',
      ''Artifact'', ''Metadata'', ''cross_association_table'',
      ''cross_association_heatmap'', ''cross_association_regplot'']"

definition utils_globals :: "string list" where
  "utils_globals =
     [''np'', ''pd'', ''Artifact'', ''import_feature_table'', ''normalize_feature_table'']"

definition load_global :: "string list \<Rightarrow> string \<Rightarrow> 'a \<Rightarrow> error + 'a" where
  "load_global globals name v = (if name \<in> set globals then Inr v else Inl (NameError name))"

section \<open>Normalization\<close>

definition applymap :: "(real \<Rightarrow> real) \<Rightarrow> data_frame \<Rightarrow> data_frame" where
  "applymap f df = df\<lparr>df_columns := map (\<lambda>(l, xs). (l, map f xs)) (df_columns df)\<rparr>"

text \<open>The rows of a frame, one list of values per sample.\<close>

definition frame_rows :: "data_frame \<Rightarrow> real list list" where
  "frame_rows df =
     map (\<lambda>i. map (\<lambda>(l, xs). xs ! i) (df_columns df)) [0..<length (df_index df)]"

definition frame_of_rows :: "data_frame \<Rightarrow> real list list \<Rightarrow> data_frame" where
  "frame_of_rows df rows =
     df\<lparr>df_columns :=
          map (\<lambda>(j, (l, xs)). (l, map (\<lambda>r. r ! j) rows))
            (zip [0..<length (df_columns df)] (df_columns df))\<rparr>"

text \<open>
  \<^verbatim>\<open>df.apply(f, axis=1, result_type='broadcast')\<close>: \<open>f\<close> is called on each row in
  turn (never, when the frame has no row); a result of another length than the row cannot
  be broadcast.
\<close>

definition apply_rows_broadcast ::
  "(real list \<Rightarrow> error + real list) \<Rightarrow> data_frame \<Rightarrow> error + data_frame" where
  "apply_rows_broadcast f df =
     (case map_result
             (\<lambda>x. case f x of
                     Inl e \<Rightarrow> Inl e
                   | Inr y \<Rightarrow> if length y = length x then Inr y
                             else Inl (ValueError ''cannot broadcast result''))
             (frame_rows df) of
        Inl e \<Rightarrow> Inl e
      | Inr rows \<Rightarrow> Inr (frame_of_rows df rows))"

definition quoted :: "string \<Rightarrow> string" where
  "quoted s = [CHR 0x27] @ s @ [CHR 0x27]"

text \<open>
  Lines 98-109 of \<^verbatim>\<open>cross_association_table\<close>. The argument is \<open>None\<close> or a string;
  \<^verbatim>\<open>not normalize\<close> holds of \<open>None\<close> and of the empty string. In the \<^verbatim>\<open>clr\<close> branch
  the name \<^verbatim>\<open>clr\<close> is read when the lambda runs on a row; in the \<^verbatim>\<open>zscore\<close> branch the
  name \<^verbatim>\<open>zscore\<close> is read when the arguments of \<^verbatim>\<open>apply\<close> are evaluated.
\<close>

definition table_normalize ::
  "externals \<Rightarrow> string option \<Rightarrow> data_frame \<Rightarrow> error + data_frame" where
  "table_normalize ext nrm feats =
     (if nrm = Some ''log10'' then Inr (applymap (\<lambda>x. log 10 (x + 1)) feats)
      else if nrm = Some ''clr'' then
        apply_rows_broadcast
          (\<lambda>x. case load_global module_globals ''clr'' (clr ext) of
                  Inl e \<Rightarrow> Inl e
                | Inr f \<Rightarrow> Inr (f (map (\<lambda>v. v + 1) x)))
          feats
      else if nrm = Some ''zscore'' then
        (case load_global module_globals ''zscore'' (zscore ext) of
           Inl e \<Rightarrow> Inl e
         | Inr f \<Rightarrow> apply_rows_broadcast (\<lambda>x. Inr (f x)) feats)
      else if nrm = None \<or> nrm = Some [] then Inr feats
      else Inl (ValueError (''Incorrect normalization method: '' @ quoted (the nrm))))"

text \<open>\<^verbatim>\<open>utils.normalize_feature_table\<close> (lines 19-31): no branch for \<open>None\<close>; the
  message shows the value unquoted (\<^verbatim>\<open>None\<close> for \<open>None\<close>).\<close>

definition normalize_feature_table ::
  "externals \<Rightarrow> data_frame \<Rightarrow> string option \<Rightarrow> error + data_frame" where
  "normalize_feature_table ext df meth =
     (if meth = Some ''log10'' then Inr (applymap (\<lambda>x. log 10 (x + 1)) df)
      else if meth = Some ''clr'' then
        apply_rows_broadcast
          (\<lambda>x. case load_global utils_globals ''clr'' (clr ext) of
                  Inl e \<Rightarrow> Inl e
                | Inr f \<Rightarrow> Inr (f (map (\<lambda>v. v + 1) x)))
          df
      else if meth = Some ''zscore'' then
        (case load_global utils_globals ''zscore'' (zscore ext) of
           Inl e \<Rightarrow> Inl e
         | Inr f \<Rightarrow> apply_rows_broadcast (\<lambda>x. Inr (f x)) df)
      else Inl (ValueError (''Incorrect normalization method: '' @
                  (case meth of None \<Rightarrow> ''None'' | Some s \<Rightarrow> s))))"

section \<open>Loading the feature table\<close>

text \<open>Lines 89-96 of \<^verbatim>\<open>cross_association_table\<close>.\<close>

definition table_import :: "externals \<Rightarrow> artifact \<Rightarrow> error + data_frame" where
  "table_import ext art =
     (case art of
        ArtifactObject df \<Rightarrow> Inr df
      | ArtifactPath p \<Rightarrow> Artifact_load ext p
      | ArtifactFrame df \<Rightarrow> Inr df
      | ArtifactOther ty \<Rightarrow> Inl (TypeError (''Incorrect feature table type: '' @ ty)))"

section \<open>Pairwise correlation\<close>

text \<open>The dictionary of line 111.\<close>

definition methods ::
  "externals \<Rightarrow> string \<rightharpoonup> (real list list \<Rightarrow> real list list \<Rightarrow> error + (real \<times> real))" where
  "methods ext = [''pearson'' \<mapsto> pearsonr ext, ''spearman'' \<mapsto> spearmanr ext]"

text \<open>\<^verbatim>\<open>df[label]\<close>: every column that carries the label.\<close>

definition getitem :: "data_frame \<Rightarrow> label \<Rightarrow> real list list" where
  "getitem df l = map snd (filter (\<lambda>c. fst c = l) (df_columns df))"

definition frame_labels :: "data_frame \<Rightarrow> label list" where
  "frame_labels df = map fst (df_columns df)"

text \<open>
  The nested loop of lines 116-121: for each feature column, for each target column, look
  the method up in the dictionary (KeyError when it is not a key) and call it. The result
  is the matrix of (coefficient, p-value) pairs, features by targets.
\<close>

definition correlate ::
  "externals \<Rightarrow> string \<Rightarrow> data_frame \<Rightarrow> data_frame \<Rightarrow> error + (real \<times> real) list list" where
  "correlate ext meth feats tgt =
     map_result
       (\<lambda>i. map_result
              (\<lambda>j. case methods ext meth of
                      None \<Rightarrow> Inl (KeyError meth)
                    | Some f \<Rightarrow> f (getitem feats (frame_labels feats ! i))
                                  (getitem tgt (frame_labels tgt ! j)))
              [0..<length (df_columns tgt)])
       [0..<length (df_columns feats)]"

text \<open>
  \<^verbatim>\<open>melt(var_name='target', ignore_index=False)\<close> of a features-by-targets matrix:
  column by column, each cell with its row label and its column label.
\<close>

definition melt :: "label list \<Rightarrow> label list \<Rightarrow> 'a list list \<Rightarrow> (label \<times> label \<times> 'a) list" where
  "melt idx cols m =
     concat (map (\<lambda>j. map (\<lambda>i. (idx ! i, cols ! j, m ! i ! j)) [0..<length idx])
               [0..<length cols])"

section \<open>Building the table\<close>

text \<open>
  Lines 123-131: the two matrices become frames indexed by the feature labels, each is
  melted, the melted frames are pasted side by side (their indexes are equal, so rows pair
  up by position), and the index becomes the column \<^verbatim>\<open>taxon\<close>.
\<close>

definition result_rows ::
  "data_frame \<Rightarrow> data_frame \<Rightarrow> (real \<times> real) list list \<Rightarrow> (label \<times> label \<times> real \<times> real) list" where
  "result_rows feats tgt m =
     map (\<lambda>((t, g, c), (t', g', p)). (t, g, c, p))
       (zip (melt (frame_labels feats) (frame_labels tgt) (map (map fst) m))
            (melt (frame_labels feats) (frame_labels tgt) (map (map snd) m)))"

text \<open>
  Line 132, \<^verbatim>\<open>df['adjp'] = ...\<close>: the array is assigned by position and must have one
  value per row. The columns are those of the melted frame (\<^verbatim>\<open>target\<close>, \<^verbatim>\<open>corr\<close>),
  then \<^verbatim>\<open>pval\<close>, with \<^verbatim>\<open>taxon\<close> put first by \<^verbatim>\<open>reset_index\<close> and \<^verbatim>\<open>adjp\<close>
  appended; the index is 0, 1, ...
\<close>

definition assign_adjp ::
  "(label \<times> label \<times> real \<times> real) list \<Rightarrow> real list \<Rightarrow> error + assoc_table" where
  "assign_adjp rows adj =
     (if length adj \<noteq> length rows
      then Inl (ValueError ''Length of values does not match length of index'')
      else Inr \<lparr>tbl_columns = (''taxon'' # ([''target'', ''corr''] @ [''pval''])) @ [''adjp''],
                tbl_rows =
                  zip [0..<length rows]
                    (map (\<lambda>((t, g, c, p), a).
                            \<lparr>taxon = t, target = g, corr = c, pval = p, adjp = a\<rparr>)
                       (zip rows adj))\<rparr>)"

section \<open>Pivoting and the significance filter\<close>

text \<open>
  \<^verbatim>\<open>df.pivot(index=..., columns=..., values=...)\<close>: raises when two rows have the same
  (index, column) pair; otherwise the grid over the sorted distinct labels, with the value
  of the row of each pair and a missing cell where no row has the pair.
\<close>

definition pivot ::
  "(assoc_row \<Rightarrow> label) \<Rightarrow> (assoc_row \<Rightarrow> label) \<Rightarrow> (assoc_row \<Rightarrow> 'a) \<Rightarrow> assoc_row list \<Rightarrow>
     error + 'a option pivot_table" where
  "pivot idx col val rows =
     (if \<not> distinct (map (\<lambda>r. (idx r, col r)) rows)
      then Inl (ValueError ''Index contains duplicate entries, cannot reshape'')
      else Inr \<lparr>pv_index = sort (remdups (map idx rows)),
                pv_columns = sort (remdups (map col rows)),
                pv_cells =
                  map (\<lambda>i. map (\<lambda>c. map_option val (find (\<lambda>r. idx r = i \<and> col r = c) rows))
                             (sort (remdups (map col rows))))
                    (sort (remdups (map idx rows)))\<rparr>)"

text \<open>\<^verbatim>\<open>adjp <= alpha\<close> on a cell: a missing cell compares false.\<close>

definition cell_le :: "real \<Rightarrow> real option \<Rightarrow> bool" where
  "cell_le alpha c = (case c of None \<Rightarrow> False | Some a \<Rightarrow> a \<le> alpha)"

text \<open>\<^verbatim>\<open>s[s >= nsig].index.to_list()\<close> for the counts \<open>s\<close> of the labels.\<close>

definition survivors :: "int \<Rightarrow> label list \<Rightarrow> nat list \<Rightarrow> label list" where
  "survivors nsig labels counts =
     map fst (filter (\<lambda>lc. nsig \<le> int (snd lc)) (zip labels counts))"

text \<open>Lines 135-142, the body of \<^verbatim>\<open>if nsig:\<close>.\<close>

definition significance_filter :: "real \<Rightarrow> int \<Rightarrow> assoc_table \<Rightarrow> error + assoc_table" where
  "significance_filter alpha nsig df =
     (case pivot taxon target adjp (map snd (tbl_rows df)) of
        Inl e \<Rightarrow> Inl e
      | Inr pv \<Rightarrow>
          let sig = map (map (cell_le alpha)) (pv_cells pv);
              taxon_survivors =
                survivors nsig (pv_index pv) (map (\<lambda>row. length (filter id row)) sig);
              target_survivors =
                survivors nsig (pv_columns pv)
                  (map (\<lambda>j. length (filter (\<lambda>row. row ! j) sig)) [0..<length (pv_columns pv)]);
              df1 = filter (\<lambda>ir. taxon (snd ir) \<in> set taxon_survivors) (tbl_rows df);
              df2 = filter (\<lambda>ir. target (snd ir) \<in> set target_survivors) df1
          in Inr (df\<lparr>tbl_rows := df2\<rparr>))"

section \<open>Sorting and the table function\<close>

text \<open>
  \<^verbatim>\<open>df.sort_values('pval')\<close> (line 144) takes the rows, each with its index label, in
  the order of the sorting permutation of the \<^verbatim>\<open>pval\<close> column: ascending by p-value, and
  among equal p-values in the order the library's routine gives their positions.
  \<^verbatim>\<open>reset_index(drop=True)\<close> relabels the rows 0, 1, ...
\<close>

definition sort_values_pval :: "externals \<Rightarrow> assoc_table \<Rightarrow> assoc_table" where
  "sort_values_pval ext df =
     df\<lparr>tbl_rows :=
          map snd
            (sort_key
               (\<lambda>kr. (pval (snd (snd kr)),
                      argsort_ties ext (map (\<lambda>ir. pval (snd ir)) (tbl_rows df)) (fst kr)))
               (zip [0..<length (tbl_rows df)] (tbl_rows df)))\<rparr>"

definition reset_index_drop :: "assoc_table \<Rightarrow> assoc_table" where
  "reset_index_drop df =
     df\<lparr>tbl_rows := zip [0..<length (tbl_rows df)] (map snd (tbl_rows df))\<rparr>"

text \<open>Lines 89-142 of \<^verbatim>\<open>cross_association_table\<close>: the correlation result with its
  adjusted p-values, filtered when \<^verbatim>\<open>nsig\<close> is not 0 (\<^verbatim>\<open>if nsig:\<close> holds of every
  integer but 0), before it is sorted.\<close>

definition table_before_sort ::
  "externals \<Rightarrow> artifact \<Rightarrow> data_frame \<Rightarrow> string \<Rightarrow> string option \<Rightarrow> real \<Rightarrow> string \<Rightarrow> int \<Rightarrow>
     error + assoc_table" where
  "table_before_sort ext art tgt meth nrm alpha multitest nsig =
     (case table_import ext art of
        Inl e \<Rightarrow> Inl e
      | Inr feats0 \<Rightarrow>
     (case table_normalize ext nrm feats0 of
        Inl e \<Rightarrow> Inl e
      | Inr feats \<Rightarrow>
     (case correlate ext meth feats tgt of
        Inl e \<Rightarrow> Inl e
      | Inr m \<Rightarrow>
     (case multipletests ext (map (\<lambda>(t, g, c, p). p) (result_rows feats tgt m)) multitest of
        Inl e \<Rightarrow> Inl e
      | Inr adj \<Rightarrow>
     (case assign_adjp (result_rows feats tgt m) adj of
        Inl e \<Rightarrow> Inl e
      | Inr df \<Rightarrow> (if nsig \<noteq> 0 then significance_filter alpha nsig df else Inr df))))))"

text \<open>\<^verbatim>\<open>cross_association_table\<close> (lines 9-147): the table of lines 89-142, sorted
  and re-indexed by lines 144-145.\<close>

definition cross_association_table ::
  "externals \<Rightarrow> artifact \<Rightarrow> data_frame \<Rightarrow> string \<Rightarrow> string option \<Rightarrow> real \<Rightarrow> string \<Rightarrow> int \<Rightarrow>
     error + assoc_table" where
  "cross_association_table ext art tgt meth nrm alpha multitest nsig =
     (case table_before_sort ext art tgt meth nrm alpha multitest nsig of
        Inl e \<Rightarrow> Inl e
      | Inr df \<Rightarrow> Inr (reset_index_drop (sort_values_pval ext df)))"

section \<open>The heatmap\<close>

text \<open>What \<^verbatim>\<open>cross_association_heatmap\<close> hands to \<^verbatim>\<open>sns.clustermap\<close>: the grid of
  coefficients, the grid of markers (or \<open>None\<close>) and the format string.\<close>

record heatmap_args =
  hm_corr :: "real option pivot_table"
  hm_annot :: "string pivot_table option"
  hm_fmt :: string

text \<open>The inner function of lines 238-241, for the \<^verbatim>\<open>alpha\<close> of the call.\<close>

definition val2sig :: "real \<Rightarrow> real option \<Rightarrow> string" where
  "val2sig alpha x = (if cell_le alpha x then ''*'' else [])"

text \<open>Lines 229-250, up to the call of the plotting library.\<close>

definition cross_association_heatmap ::
  "externals \<Rightarrow> artifact \<Rightarrow> data_frame \<Rightarrow> string \<Rightarrow> string option \<Rightarrow> real \<Rightarrow> string \<Rightarrow> int \<Rightarrow>
     bool \<Rightarrow> error + heatmap_args" where
  "cross_association_heatmap ext art tgt meth nrm alpha multitest nsig marksig =
     (case cross_association_table ext art tgt meth nrm alpha multitest nsig of
        Inl e \<Rightarrow> Inl e
      | Inr df \<Rightarrow>
     (case pivot target taxon corr (map snd (tbl_rows df)) of
        Inl e \<Rightarrow> Inl e
      | Inr cp \<Rightarrow>
          if marksig then
            (case pivot target taxon pval (map snd (tbl_rows df)) of
               Inl e \<Rightarrow> Inl e
             | Inr pp \<Rightarrow>
                 Inr \<lparr>hm_corr = cp,
                      hm_annot =
                        Some \<lparr>pv_index = pv_index pp, pv_columns = pv_columns pp,
                              pv_cells = map (map (val2sig alpha)) (pv_cells pp)\<rparr>,
                      hm_fmt = []\<rparr>)
          else Inr \<lparr>hm_corr = cp, hm_annot = None, hm_fmt = ''.2g''\<rparr>))"

section \<open>The Benjamini-Hochberg correction\<close>

text \<open>
  Modelled from the spec: \<^verbatim>\<open>statsmodels.stats.multitest.multipletests\<close>, which line 132
  calls, is a library function and not among the sources. The spec (4.3) gives the
  procedure for the method \<^verbatim>\<open>fdr_bh\<close>: sort ascending; the adjusted value at rank k of N
  is the least of p(k') * N / k' over the ranks k' from k on, clipped to [0, 1]; map back
  to the original order. It is written here as a computation: the sorting permutation,
  the scaled values, their running minimum from the right, the clip, and the scatter back
  through the permutation.
\<close>

definition argsort :: "real list \<Rightarrow> nat list" where
  "argsort ps = map snd (sort_key fst (zip ps [0..<length ps]))"

fun suffix_min :: "real list \<Rightarrow> real list" where
  "suffix_min [] = []"
| "suffix_min (x # xs) =
     (case suffix_min xs of [] \<Rightarrow> [x] | m # ms \<Rightarrow> min x m # m # ms)"

definition clip01 :: "real \<Rightarrow> real" where
  "clip01 v = max 0 (min 1 v)"

definition scatter :: "nat list \<Rightarrow> real list \<Rightarrow> real list" where
  "scatter idx vs =
     fold (\<lambda>kv acc. acc[fst kv := snd kv]) (zip idx vs) (replicate (length vs) 0)"

definition bh_scaled :: "real list \<Rightarrow> real list" where
  "bh_scaled sorted_ps =
     map (\<lambda>k. sorted_ps ! k * real (length sorted_ps) / real (k + 1)) [0..<length sorted_ps]"

definition fdr_bh :: "real list \<Rightarrow> real list" where
  "fdr_bh ps =
     scatter (argsort ps)
       (map clip01 (suffix_min (bh_scaled (map (\<lambda>i. ps ! i) (argsort ps)))))"

section \<open>A worked input\<close>

text \<open>
  One feature \<^verbatim>\<open>f1\<close> = [0, 1, 2] over three samples and three targets \<^verbatim>\<open>a\<close> =
  [0, 1, 2.1], \<^verbatim>\<open>b\<close> = \<^verbatim>\<open>c\<close> = [0, 1, 0]. Pearson's statistic of \<^verbatim>\<open>f1\<close> with \<^verbatim>\<open>a\<close> is
  r = 0.9996 with p = 0.0175 (to four places), and r = 0 with p = 1 for \<^verbatim>\<open>b\<close> and \<^verbatim>\<open>c\<close>;
  \<open>example_stat\<close> stands for the library on these inputs, with p = 7/400. The adjusted
  p-values come from \<open>fdr_bh\<close>; the method names other than \<^verbatim>\<open>fdr_bh\<close> are not modelled.
  The sort keeps rows with equal p-values in the order they had, as numpy does on an
  array this short.
\<close>

definition example_feats :: data_frame where
  "example_feats = \<lparr>df_index = [''s1'', ''s2'', ''s3''], df_columns = [(''f1'', [0, 1, 2])]\<rparr>"

definition example_target :: data_frame where
  "example_target =
     \<lparr>df_index = [''s1'', ''s2'', ''s3''],
      df_columns = [(''a'', [0, 1, 21/10]), (''b'', [0, 1, 0]), (''c'', [0, 1, 0])]\<rparr>"

definition example_stat :: "real list list \<Rightarrow> real list list \<Rightarrow> error + (real \<times> real)" where
  "example_stat x y = (if y = [[0, 1, 21/10]] then Inr (9996/10000, 7/400) else Inr (0, 1))"

definition example_externals :: externals where
  "example_externals =
     \<lparr>Artifact_load = (\<lambda>p. Inl (LibraryError ''no such file'')),
      pearsonr = example_stat,
      spearmanr = example_stat,
      multipletests =
        (\<lambda>ps m. if m = ''fdr_bh'' then Inr (fdr_bh ps) else Inl (LibraryError ''not modelled'')),
      clr = (\<lambda>x. x),
      zscore = (\<lambda>x. x),
      argsort_ties = (\<lambda>keys i. i)\<rparr>"

section \<open>Notions used to state the properties\<close>

text \<open>The pairs of a feature label and a target label, in the order \<open>melt\<close> lists them.\<close>

definition grid_pairs :: "label list \<Rightarrow> label list \<Rightarrow> (label \<times> label) list" where
  "grid_pairs F T = concat (map (\<lambda>g. map (\<lambda>f. (f, g)) F) T)"

text \<open>
  The number of significant targets of a taxon and of significant taxa of a target among
  the rows of a correlation result, and the rows the significance filter is to keep.
\<close>

definition n_sig_targets :: "real \<Rightarrow> assoc_row list \<Rightarrow> label \<Rightarrow> nat" where
  "n_sig_targets alpha rows t = length (filter (\<lambda>r. taxon r = t \<and> adjp r \<le> alpha) rows)"

definition n_sig_taxa :: "real \<Rightarrow> assoc_row list \<Rightarrow> label \<Rightarrow> nat" where
  "n_sig_taxa alpha rows g = length (filter (\<lambda>r. target r = g \<and> adjp r \<le> alpha) rows)"

definition keep_row :: "real \<Rightarrow> int \<Rightarrow> assoc_row list \<Rightarrow> assoc_row \<Rightarrow> bool" where
  "keep_row alpha k rows r =
     (k \<le> int (n_sig_targets alpha rows (taxon r)) \<and> k \<le> int (n_sig_taxa alpha rows (target r)))"

section \<open>Properties of the Benjamini-Hochberg correction\<close>

lemma length_argsort: "length (argsort ps) = length ps"
  by (simp add: argsort_def)

lemma mset_argsort: "mset (argsort ps) = mset [0..<length ps]"
proof -
  have "mset (argsort ps) = mset (map snd (zip ps [0..<length ps]))"
    unfolding argsort_def by (simp only: mset_map mset_sort)
  also have "map snd (zip ps [0..<length ps]) = [0..<length ps]" by simp
  finally show ?thesis .
qed

lemma set_argsort: "set (argsort ps) = {0..<length ps}"
  using mset_argsort [of ps] by (metis mset_eq_setD set_upt)

lemma distinct_argsort: "distinct (argsort ps)"
  using mset_argsort [of ps] by (metis distinct_upt mset_eq_imp_distinct_iff)

lemma argsort_nth_less: "k < length ps \<Longrightarrow> argsort ps ! k < length ps"
  using set_argsort [of ps] length_argsort [of ps] by (metis atLeastLessThan_iff nth_mem)

lemma take_argsort: "map (\<lambda>i. ps ! i) (argsort ps) = sort ps"
proof -
  let ?zs = "sort_key fst (zip ps [0..<length ps])"
  have "\<forall>z \<in> set ?zs. ps ! snd z = fst z"
    by (auto simp: set_zip)
  then have "map (\<lambda>i. ps ! i) (map snd ?zs) = map fst ?zs"
    by simp
  moreover have "sorted (map fst ?zs)" by (rule sorted_sort_key)
  moreover have "mset (map fst ?zs) = mset ps"
  proof -
    have "mset (map fst ?zs) = mset (map fst (zip ps [0..<length ps]))"
      by (simp only: mset_map mset_sort)
    also have "map fst (zip ps [0..<length ps]) = ps" by simp
    finally show ?thesis .
  qed
  ultimately show ?thesis
    by (metis argsort_def properties_for_sort)
qed

lemma length_suffix_min: "length (suffix_min xs) = length xs"
  by (induction xs) (auto split: list.splits)

lemma suffix_min_Cons:
  "suffix_min (x # xs) = (if xs = [] then [x] else min x (hd (suffix_min xs)) # suffix_min xs)"
  using length_suffix_min [of xs] by (cases "suffix_min xs") auto

lemma hd_suffix_min: "xs \<noteq> [] \<Longrightarrow> hd (suffix_min xs) = Min (set xs)"
proof (induction xs)
  case Nil then show ?case by simp
next
  case (Cons x xs)
  show ?case
  proof (cases "xs = []")
    case True then show ?thesis by simp
  next
    case False
    with Cons show ?thesis by (simp add: suffix_min_Cons del: suffix_min.simps(2))
  qed
qed

lemma drop_suffix_min: "drop k (suffix_min xs) = suffix_min (drop k xs)"
proof (induction xs arbitrary: k)
  case Nil then show ?case by simp
next
  case (Cons x xs)
  show ?case
  proof (cases k)
    case 0 then show ?thesis by simp
  next
    case (Suc j)
    have "drop k (suffix_min (x # xs)) = drop j (suffix_min xs)"
      using Suc by (simp add: suffix_min_Cons del: suffix_min.simps(2))
    then show ?thesis using Cons Suc by simp
  qed
qed

lemma suffix_min_nth:
  assumes "k < length xs"
  shows "suffix_min xs ! k = Min (set (drop k xs))"
proof -
  have ne: "drop k xs \<noteq> []" using assms by simp
  have "suffix_min xs ! k = hd (drop k (suffix_min xs))"
    using assms by (simp add: hd_drop_conv_nth length_suffix_min)
  also have "\<dots> = hd (suffix_min (drop k xs))" by (simp add: drop_suffix_min)
  also have "\<dots> = Min (set (drop k xs))" using ne by (rule hd_suffix_min)
  finally show ?thesis .
qed

lemma sorted_suffix_min: "sorted (suffix_min xs)"
proof (induction xs)
  case Nil then show ?case by simp
next
  case (Cons x xs)
  show ?case
  proof (cases "suffix_min xs")
    case Nil then show ?thesis by simp
  next
    case (Cons m ms)
    with Cons.IH show ?thesis by auto
  qed
qed

lemma fold_update_length:
  "length (fold (\<lambda>kv acc. acc[fst kv := snd kv]) kvs acc) = length acc"
  by (induction kvs arbitrary: acc) auto

lemma fold_update_other:
  "i \<notin> fst ` set kvs \<Longrightarrow> fold (\<lambda>kv acc. acc[fst kv := snd kv]) kvs acc ! i = acc ! i"
  by (induction kvs arbitrary: acc) auto

lemma fold_update_nth:
  "distinct (map fst kvs) \<Longrightarrow> (i, v) \<in> set kvs \<Longrightarrow> i < length acc \<Longrightarrow>
   fold (\<lambda>kv acc. acc[fst kv := snd kv]) kvs acc ! i = v"
proof (induction kvs arbitrary: acc)
  case Nil then show ?case by simp
next
  case (Cons kv kvs)
  show ?case
  proof (cases "(i, v) = kv")
    case True
    have "fst kv \<notin> set (map fst kvs)" using Cons.prems(1) by simp
    then have "i \<notin> fst ` set kvs" using True by (metis fst_conv set_map)
    then have "fold (\<lambda>kv acc. acc[fst kv := snd kv]) kvs (acc[i := v]) ! i = acc[i := v] ! i"
      by (rule fold_update_other)
    then show ?thesis using True Cons.prems(3) by auto
  next
    case False
    then show ?thesis using Cons by auto
  qed
qed

lemma length_scatter: "length (scatter idx vs) = length vs"
  by (simp add: scatter_def fold_update_length)

lemma scatter_nth:
  assumes "distinct idx" "length idx = length vs" "k < length vs" "idx ! k < length vs"
  shows "scatter idx vs ! (idx ! k) = vs ! k"
proof -
  have "(idx ! k, vs ! k) \<in> set (zip idx vs)"
    using assms by (auto simp: set_zip)
  moreover have "distinct (map fst (zip idx vs))" using assms by simp
  ultimately show ?thesis
    using assms(4) unfolding scatter_def by (intro fold_update_nth) auto
qed

lemma length_bh_scaled: "length (bh_scaled s) = length s"
  by (simp add: bh_scaled_def)

lemma length_fdr_bh: "length (fdr_bh ps) = length ps"
  by (simp add: fdr_bh_def length_scatter length_suffix_min length_bh_scaled length_argsort)

lemma fdr_bh_at_rank:
  assumes "k < length ps"
  shows "fdr_bh ps ! (argsort ps ! k) = clip01 (suffix_min (bh_scaled (sort ps)) ! k)"
proof -
  let ?vs = "map clip01 (suffix_min (bh_scaled (sort ps)))"
  have len: "length ?vs = length ps"
    by (simp add: length_suffix_min length_bh_scaled)
  have "scatter (argsort ps) ?vs ! (argsort ps ! k) = ?vs ! k"
    using assms len by (intro scatter_nth) (simp_all add: distinct_argsort length_argsort argsort_nth_less)
  then show ?thesis
    using assms len by (simp add: fdr_bh_def take_argsort length_suffix_min length_bh_scaled)
qed

lemma set_drop_bh_scaled:
  "set (drop k (bh_scaled s)) = (\<lambda>j. s ! j * real (length s) / real (j + 1)) ` {k..<length s}"
proof -
  have "drop k (bh_scaled s) = map (\<lambda>j. s ! j * real (length s) / real (j + 1)) [k..<length s]"
    by (simp add: bh_scaled_def drop_map drop_upt)
  then show ?thesis by simp
qed

lemma fdr_bh_closed_form:
  assumes "k < length ps"
  shows "fdr_bh ps ! (argsort ps ! k) =
         clip01 (Min ((\<lambda>j. sort ps ! j * real (length ps) / real (j + 1)) ` {k..<length ps}))"
  using assms
  by (simp add: fdr_bh_at_rank suffix_min_nth length_bh_scaled set_drop_bh_scaled)


lemma fdr_bh_ranks:
  "map (\<lambda>i. fdr_bh ps ! i) (argsort ps) = map clip01 (suffix_min (bh_scaled (sort ps)))"
  by (rule nth_equalityI)
     (simp_all add: length_argsort length_suffix_min length_bh_scaled fdr_bh_at_rank)

lemma clip01_mono: "a \<le> b \<Longrightarrow> clip01 a \<le> clip01 b"
  by (simp add: clip01_def)

lemma sorted_map_clip01: "sorted xs \<Longrightarrow> sorted (map clip01 xs)"
  by (induction xs) (auto simp: clip01_mono)

lemma bh_scaled_ge:
  assumes "\<forall>p\<in>set s. 0 \<le> p" "sorted s" "k \<le> j" "j < length s"
  shows "s ! k \<le> s ! j * real (length s) / real (j + 1)"
proof -
  have "s ! k \<le> s ! j" using assms by (simp add: sorted_nth_mono)
  moreover have "0 \<le> s ! j" using assms by simp
  moreover have "1 \<le> real (length s) / real (j + 1)" using assms(4) by simp
  ultimately have "s ! k \<le> s ! j * (real (length s) / real (j + 1))"
    by (metis mult.right_neutral mult_left_mono order_trans)
  then show ?thesis by simp
qed

lemma bh_min_ge:
  assumes "\<forall>p\<in>set s. 0 \<le> p" "sorted s" "k < length s"
  shows "s ! k \<le> Min ((\<lambda>j. s ! j * real (length s) / real (j + 1)) ` {k..<length s})"
proof -
  let ?A = "(\<lambda>j. s ! j * real (length s) / real (j + 1)) ` {k..<length s}"
  have all: "\<forall>a\<in>?A. s ! k \<le> a"
  proof
    fix a assume "a \<in> ?A"
    then obtain j where j: "k \<le> j" "j < length s" "a = s ! j * real (length s) / real (j + 1)"
      by auto
    show "s ! k \<le> a" unfolding j(3) using assms(1,2) j(1,2) by (rule bh_scaled_ge)
  qed
  have fin: "finite ?A" by simp
  have ne: "?A \<noteq> {}" using assms(3) by simp
  show ?thesis unfolding Min_ge_iff [OF fin ne] by (rule all)
qed

text \<open>
  Claim C1. The correction with method \<^verbatim>\<open>fdr_bh\<close> returns one value per input; the
  sorting permutation \<open>argsort ps\<close> lists every position once and reads the p-values in
  ascending order; the adjusted value of the p-value at rank \<open>k\<close> (counted from 0, so the
  spec's rank is \<open>k + 1\<close>) is the least of \<open>p(j) * N / (j + 1)\<close> over the ranks \<open>j\<close> from
  \<open>k\<close> on, clipped to [0, 1], and it stands at the position the p-value came from. The
  input [0.01, 0.02, 0.03, 0.50] gives [0.04, 0.04, 0.04, 0.50].
\<close>

theorem C1_fdr_bh_benjamini_hochberg:
  "length (fdr_bh ps) = length ps \<and>
   mset (argsort ps) = mset [0..<length ps] \<and>
   map (\<lambda>i. ps ! i) (argsort ps) = sort ps \<and>
   (\<forall>k<length ps.
      fdr_bh ps ! (argsort ps ! k) =
      clip01 (Min ((\<lambda>j. sort ps ! j * real (length ps) / real (j + 1)) ` {k..<length ps}))) \<and>
   fdr_bh [1/100, 2/100, 3/100, 1/2] = [4/100, 4/100, 4/100, 1/2]"
proof -
  have ex: "fdr_bh [1/100, 2/100, 3/100, 1/2] = [4/100, 4/100, 4/100, 1/2]"
    by (simp add: fdr_bh_def argsort_def scatter_def bh_scaled_def clip01_def upt_rec)
  have ranks: "\<forall>k<length ps.
      fdr_bh ps ! (argsort ps ! k) =
      clip01 (Min ((\<lambda>j. sort ps ! j * real (length ps) / real (j + 1)) ` {k..<length ps}))"
    by (intro allI impI) (rule fdr_bh_closed_form)
  show ?thesis
    by (intro conjI) (rule length_fdr_bh mset_argsort take_argsort ranks ex)+
qed

theorem C1_fdr_bh_witness:
  "fdr_bh [1/100, 2/100, 3/100, 1/2] ! (argsort [1/100, 2/100, 3/100, 1/2] ! 0) =
   clip01 (Min ((\<lambda>j. sort [1/100, 2/100, 3/100, 1/2] ! j
                        * real (length [1/100, 2/100, 3/100, 1/2 :: real]) / real (j + 1))
                 ` {0..<length [1/100, 2/100, 3/100, 1/2 :: real]}))"
proof -
  let ?ps = "[1/100, 2/100, 3/100, 1/2 :: real]"
  have lt: "0 < length ?ps" by simp
  have ranks: "\<forall>k<length ?ps.
      fdr_bh ?ps ! (argsort ?ps ! k) =
      clip01 (Min ((\<lambda>j. sort ?ps ! j * real (length ?ps) / real (j + 1)) ` {k..<length ?ps}))"
    using C1_fdr_bh_benjamini_hochberg [of ?ps] by (elim conjE)
  have "0 < length ?ps \<longrightarrow> ?thesis" using ranks by (rule spec)
  then show ?thesis using lt by (rule mp)
qed

lemma bh_min_tie:
  assumes nn: "\<forall>p\<in>set s. 0 \<le> p" and so: "sorted s"
      and ba: "b < a" and al: "a < length s" and tie: "s ! a = s ! b"
  shows "Min ((\<lambda>j. s ! j * real (length s) / real (j + 1)) ` {a..<length s}) \<le>
         Min ((\<lambda>j. s ! j * real (length s) / real (j + 1)) ` {b..<length s})"
proof -
  let ?F = "\<lambda>j. s ! j * real (length s) / real (j + 1)"
  let ?A = "?F ` {a..<length s}"
  let ?B = "?F ` {b..<length s}"
  have finA: "finite ?A" and finB: "finite ?B" by simp_all
  have neB: "?B \<noteq> {}" using ba al by simp
  have Fa: "Min ?A \<le> ?F a"
    using finA by (rule Min_le) (use al in simp)
  have "\<forall>x\<in>?B. Min ?A \<le> x"
  proof
    fix x assume "x \<in> ?B"
    then obtain j where j: "b \<le> j" "j < length s" "x = ?F j" by auto
    show "Min ?A \<le> x"
    proof (cases "a \<le> j")
      case True
      then have "?F j \<in> ?A" using j(2) by simp
      then show ?thesis unfolding j(3) using finA by (simp only: Min_le)
    next
      case False
      then have ja: "j < a" by simp
      have "s ! b \<le> s ! j" using so j(1,2) by (simp add: sorted_nth_mono)
      moreover have "s ! j \<le> s ! a" using so ja al by (simp add: sorted_nth_mono)
      ultimately have sj: "s ! j = s ! a" using tie by simp
      have "0 \<le> s ! a" using nn al by simp
      then have num: "0 \<le> s ! a * real (length s)" by simp
      have "s ! a * real (length s) / real (a + 1) \<le> s ! a * real (length s) / real (j + 1)"
        using num ja by (intro frac_le) simp_all
      then have "?F a \<le> ?F j" unfolding sj .
      then show ?thesis unfolding j(3) using Fa by (rule order_trans [rotated])
    qed
  qed
  then show ?thesis unfolding Min_ge_iff [OF finB neB] .
qed

lemma fdr_bh_order_preserving:
  assumes nn: "\<forall>p\<in>set ps. 0 \<le> p"
      and i: "i < length ps" and j: "j < length ps" and le: "ps ! i \<le> ps ! j"
  shows "fdr_bh ps ! i \<le> fdr_bh ps ! j"
proof -
  let ?s = "sort ps"
  let ?F = "\<lambda>k. ?s ! k * real (length ps) / real (k + 1)"
  obtain a where a: "a < length ps" "argsort ps ! a = i"
    using i by (metis atLeastLessThan_iff in_set_conv_nth length_argsort set_argsort zero_le)
  obtain b where b: "b < length ps" "argsort ps ! b = j"
    using j by (metis atLeastLessThan_iff in_set_conv_nth length_argsort set_argsort zero_le)
  have sa: "?s ! a = ps ! i" using a take_argsort [of ps] by (metis length_argsort nth_map)
  have sb: "?s ! b = ps ! j" using b take_argsort [of ps] by (metis length_argsort nth_map)
  have Ai: "fdr_bh ps ! i = clip01 (Min (?F ` {a..<length ps}))"
    using fdr_bh_closed_form [OF a(1)] a(2) by simp
  have Aj: "fdr_bh ps ! j = clip01 (Min (?F ` {b..<length ps}))"
    using fdr_bh_closed_form [OF b(1)] b(2) by simp
  show ?thesis
  proof (cases "a \<le> b")
    case True
    have srt: "sorted (map (\<lambda>k. fdr_bh ps ! k) (argsort ps))"
      by (simp only: fdr_bh_ranks sorted_map_clip01 sorted_suffix_min)
    have bl: "b < length (map (\<lambda>k. fdr_bh ps ! k) (argsort ps))"
      using b(1) by (simp add: length_argsort)
    from sorted_nth_mono [OF srt True bl]
    show ?thesis using a b by (simp add: length_argsort)
  next
    case False
    then have ba: "b < a" by simp
    have "?s ! b \<le> ?s ! a" using ba a(1) by (simp add: sorted_nth_mono)
    then have tie: "?s ! a = ?s ! b" using le sa sb by simp
    have nn': "\<forall>p\<in>set ?s. 0 \<le> p" using nn by simp
    have al: "a < length ?s" using a(1) by simp
    have "Min ((\<lambda>k. ?s ! k * real (length ?s) / real (k + 1)) ` {a..<length ?s}) \<le>
          Min ((\<lambda>k. ?s ! k * real (length ?s) / real (k + 1)) ` {b..<length ?s})"
      using nn' sorted_sort ba al tie by (rule bh_min_tie)
    then have "Min (?F ` {a..<length ps}) \<le> Min (?F ` {b..<length ps})" by simp
    then show ?thesis unfolding Ai Aj by (rule clip01_mono)
  qed
qed

lemma fdr_bh_inflationary_sorted:
  assumes "\<forall>p\<in>set ps. 0 \<le> p \<and> p \<le> 1"
  shows "(\<forall>i<length ps. ps ! i \<le> fdr_bh ps ! i) \<and>
         sorted (map (\<lambda>i. fdr_bh ps ! i) (argsort ps))"
proof
  show "\<forall>i<length ps. ps ! i \<le> fdr_bh ps ! i"
  proof (intro allI impI)
    fix i assume i: "i < length ps"
    then have "i \<in> set (argsort ps)" by (simp add: set_argsort)
    then obtain k where k: "k < length ps" "argsort ps ! k = i"
      by (metis in_set_conv_nth length_argsort)
    have sk: "sort ps ! k = ps ! i"
      using k take_argsort [of ps] by (metis length_argsort nth_map)
    have nonneg: "\<forall>p\<in>set (sort ps). 0 \<le> p" using assms by simp
    have "sort ps ! k \<le>
          Min ((\<lambda>j. sort ps ! j * real (length (sort ps)) / real (j + 1)) ` {k..<length (sort ps)})"
      using nonneg k(1) by (intro bh_min_ge) simp_all
    moreover have "0 \<le> ps ! i" "ps ! i \<le> 1" using assms i by simp_all
    ultimately have "ps ! i \<le>
          clip01 (Min ((\<lambda>j. sort ps ! j * real (length ps) / real (j + 1)) ` {k..<length ps}))"
      using sk by (simp add: clip01_def)
    then show "ps ! i \<le> fdr_bh ps ! i"
      using fdr_bh_closed_form [OF k(1)] k(2) by simp
  qed
  show "sorted (map (\<lambda>i. fdr_bh ps ! i) (argsort ps))"
    by (simp only: fdr_bh_ranks sorted_map_clip01 sorted_suffix_min)
qed

text \<open>
  Claim C9. For p-values in [0, 1], the Benjamini-Hochberg correction never lowers a
  value (\<open>adjp[i] \<ge> pval[i]\<close> at every position); the adjusted values read in
  ascending order of the original p-values are non-decreasing; and, whatever the order
  among equal p-values, a position with a smaller or equal p-value has a smaller or equal
  adjusted value.
\<close>

theorem C9_fdr_bh_inflationary_monotone:
  assumes "\<forall>p\<in>set ps. 0 \<le> p \<and> p \<le> 1"
  shows "(\<forall>i<length ps. ps ! i \<le> fdr_bh ps ! i) \<and>
         sorted (map (\<lambda>i. fdr_bh ps ! i) (argsort ps)) \<and>
         (\<forall>i<length ps. \<forall>j<length ps. ps ! i \<le> ps ! j \<longrightarrow> fdr_bh ps ! i \<le> fdr_bh ps ! j)"
proof -
  have nn: "\<forall>p\<in>set ps. 0 \<le> p" using assms by simp
  have "\<forall>i<length ps. \<forall>j<length ps. ps ! i \<le> ps ! j \<longrightarrow> fdr_bh ps ! i \<le> fdr_bh ps ! j"
    using fdr_bh_order_preserving [OF nn] by blast
  then show ?thesis using fdr_bh_inflationary_sorted [OF assms] by (intro conjI) (elim conjE, assumption)+
qed

theorem C9_fdr_bh_witness:
  "[1/100, 2/100, 3/100, 1/2 :: real] ! 3 \<le> fdr_bh [1/100, 2/100, 3/100, 1/2] ! 3 \<and>
   sorted (map (\<lambda>i. fdr_bh [1/100, 2/100, 3/100, 1/2] ! i) (argsort [1/100, 2/100, 3/100, 1/2]))"
proof -
  let ?ps = "[1/100, 2/100, 3/100, 1/2 :: real]"
  have range: "\<forall>p\<in>set ?ps. 0 \<le> p \<and> p \<le> 1" by simp
  have lt: "3 < length ?ps" by simp
  have all: "\<forall>i<length ?ps. ?ps ! i \<le> fdr_bh ?ps ! i"
    using C9_fdr_bh_inflationary_monotone [OF range] by (elim conjE)
  have "3 < length ?ps \<longrightarrow> ?ps ! 3 \<le> fdr_bh ?ps ! 3" using all by (rule spec)
  then have "?ps ! 3 \<le> fdr_bh ?ps ! 3" using lt by (rule mp)
  moreover have "sorted (map (\<lambda>i. fdr_bh ?ps ! i) (argsort ?ps))"
    using C9_fdr_bh_inflationary_monotone [OF range] by (elim conjE)
  ultimately show ?thesis by (rule conjI)
qed

section \<open>Properties of the table\<close>

lemmas table_defs = cross_association_table_def table_before_sort_def table_import_def
  table_normalize_def
  correlate_def methods_def getitem_def frame_labels_def result_rows_def melt_def
  assign_adjp_def sort_values_pval_def reset_index_drop_def
lemmas example_defs = example_externals_def example_feats_def example_target_def example_stat_def
lemmas bh_defs = fdr_bh_def argsort_def scatter_def bh_scaled_def clip01_def

lemma example_table:
  "cross_association_table example_externals (ArtifactFrame example_feats) example_target
     ''pearson'' None alpha ''fdr_bh'' 0 =
   Inr \<lparr>tbl_columns = [''taxon'', ''target'', ''corr'', ''pval'', ''adjp''],
        tbl_rows =
          [(0, \<lparr>taxon = ''f1'', target = ''a'', corr = 9996/10000, pval = 7/400, adjp = 21/400\<rparr>),
           (1, \<lparr>taxon = ''f1'', target = ''b'', corr = 0, pval = 1, adjp = 1\<rparr>),
           (2, \<lparr>taxon = ''f1'', target = ''c'', corr = 0, pval = 1, adjp = 1\<rparr>)]\<rparr>"
  by (simp add: table_defs example_defs bh_defs)

text \<open>With another order of equal keys from the sorting routine, the rows of \<^verbatim>\<open>b\<close>
  and \<^verbatim>\<open>c\<close>, which have the same p-value, change places.\<close>

lemma example_table_other_ties:
  "cross_association_table (example_externals\<lparr>argsort_ties := (\<lambda>keys i. 3 - i)\<rparr>)
     (ArtifactFrame example_feats) example_target ''pearson'' None alpha ''fdr_bh'' 0 =
   Inr \<lparr>tbl_columns = [''taxon'', ''target'', ''corr'', ''pval'', ''adjp''],
        tbl_rows =
          [(0, \<lparr>taxon = ''f1'', target = ''a'', corr = 9996/10000, pval = 7/400, adjp = 21/400\<rparr>),
           (1, \<lparr>taxon = ''f1'', target = ''c'', corr = 0, pval = 1, adjp = 1\<rparr>),
           (2, \<lparr>taxon = ''f1'', target = ''b'', corr = 0, pval = 1, adjp = 1\<rparr>)]\<rparr>"
  by (simp add: table_defs example_defs bh_defs)

text \<open>
  Claim C10. With \<^verbatim>\<open>nsig = 0\<close> the table does not depend on \<^verbatim>\<open>alpha\<close>: two calls that
  differ only in \<^verbatim>\<open>alpha\<close> return the same result (the same table, or the same error).
\<close>

theorem C10_table_independent_of_alpha:
  "cross_association_table ext art tgt meth nrm alpha1 multitest 0 =
   cross_association_table ext art tgt meth nrm alpha2 multitest 0"
  by (simp add: cross_association_table_def table_before_sort_def split: sum.splits)

lemma assign_adjp_columns:
  "assign_adjp rows adj = Inr df \<Longrightarrow>
   tbl_columns df = [''taxon'', ''target'', ''corr'', ''pval'', ''adjp'']"
  by (auto simp: assign_adjp_def split: if_splits)

lemma significance_filter_columns:
  "significance_filter alpha nsig df = Inr df' \<Longrightarrow> tbl_columns df' = tbl_columns df"
  by (auto simp: significance_filter_def Let_def split: sum.splits)

lemma sorted_map_fst_key:
  fixes K :: "'a \<Rightarrow> real \<times> nat"
  shows "sorted (map K xs) \<Longrightarrow> sorted (map (\<lambda>x. fst (K x)) xs)"
  by (induction xs) (auto simp: less_eq_prod_def)

lemma sort_values_columns: "tbl_columns (sort_values_pval ext df) = tbl_columns df"
  by (simp add: sort_values_pval_def)

lemma sort_values_rows_mset: "mset (tbl_rows (sort_values_pval ext df)) = mset (tbl_rows df)"
proof -
  let ?K = "\<lambda>kr :: nat \<times> nat \<times> assoc_row.
              (pval (snd (snd kr)),
               argsort_ties ext (map (\<lambda>ir. pval (snd ir)) (tbl_rows df)) (fst kr))"
  let ?zs = "zip [0..<length (tbl_rows df)] (tbl_rows df)"
  have "tbl_rows (sort_values_pval ext df) = map snd (sort_key ?K ?zs)"
    by (simp add: sort_values_pval_def)
  then have "mset (tbl_rows (sort_values_pval ext df)) = mset (map snd ?zs)"
    by (simp only: mset_map mset_sort)
  also have "map snd ?zs = tbl_rows df" by simp
  finally show ?thesis .
qed

lemma sort_values_sorted:
  "sorted (map (\<lambda>ir. pval (snd ir)) (tbl_rows (sort_values_pval ext df)))"
proof -
  let ?K = "\<lambda>kr :: nat \<times> nat \<times> assoc_row.
              (pval (snd (snd kr)),
               argsort_ties ext (map (\<lambda>ir. pval (snd ir)) (tbl_rows df)) (fst kr))"
  let ?zs = "zip [0..<length (tbl_rows df)] (tbl_rows df)"
  have "sorted (map ?K (sort_key ?K ?zs))" by (rule sorted_sort_key)
  then have "sorted (map (\<lambda>kr. fst (?K kr)) (sort_key ?K ?zs))" by (rule sorted_map_fst_key)
  moreover have "map (\<lambda>ir. pval (snd ir)) (tbl_rows (sort_values_pval ext df)) =
                 map (\<lambda>kr. fst (?K kr)) (sort_key ?K ?zs)"
    by (simp add: sort_values_pval_def comp_def)
  ultimately show ?thesis by simp
qed

lemma table_final_shape:
  "tbl_columns (reset_index_drop (sort_values_pval ext df)) = tbl_columns df \<and>
   map fst (tbl_rows (reset_index_drop (sort_values_pval ext df))) =
     [0..<length (tbl_rows (reset_index_drop (sort_values_pval ext df)))] \<and>
   map snd (tbl_rows (reset_index_drop (sort_values_pval ext df))) =
     map snd (tbl_rows (sort_values_pval ext df))"
  by (simp add: reset_index_drop_def sort_values_columns)

lemma final_rows_mset:
  "mset (map snd (tbl_rows (reset_index_drop (sort_values_pval ext df)))) =
   mset (map snd (tbl_rows df))"
  by (simp only: table_final_shape mset_map sort_values_rows_mset)

lemma sorted_final:
  "sorted (map (\<lambda>ir. pval (snd ir)) (tbl_rows (reset_index_drop (sort_values_pval ext df))))"
proof -
  have "map (\<lambda>ir. pval (snd ir)) (tbl_rows (reset_index_drop (sort_values_pval ext df))) =
        map pval (map snd (tbl_rows (reset_index_drop (sort_values_pval ext df))))"
    by simp
  also have "\<dots> = map (\<lambda>ir. pval (snd ir)) (tbl_rows (sort_values_pval ext df))"
    by (simp only: table_final_shape map_map comp_def)
  finally show ?thesis by (simp only: sort_values_sorted)
qed

lemma table_stages:
  assumes "cross_association_table ext art tgt meth nrm alpha multitest nsig = Inr tbl"
  obtains feats0 feats m adj df df' where
    "table_import ext art = Inr feats0"
    "table_normalize ext nrm feats0 = Inr feats"
    "correlate ext meth feats tgt = Inr m"
    "multipletests ext (map (\<lambda>(t, g, c, p). p) (result_rows feats tgt m)) multitest = Inr adj"
    "assign_adjp (result_rows feats tgt m) adj = Inr df"
    "(if nsig \<noteq> 0 then significance_filter alpha nsig df else Inr df) = Inr df'"
    "table_before_sort ext art tgt meth nrm alpha multitest nsig = Inr df'"
    "tbl = reset_index_drop (sort_values_pval ext df')"
proof -
  from assms obtain df' where
    b: "table_before_sort ext art tgt meth nrm alpha multitest nsig = Inr df'" and
    t: "tbl = reset_index_drop (sort_values_pval ext df')"
    unfolding cross_association_table_def by (auto split: sum.splits)
  from b obtain feats0 feats m adj df where
    "table_import ext art = Inr feats0"
    "table_normalize ext nrm feats0 = Inr feats"
    "correlate ext meth feats tgt = Inr m"
    "multipletests ext (map (\<lambda>(t, g, c, p). p) (result_rows feats tgt m)) multitest = Inr adj"
    "assign_adjp (result_rows feats tgt m) adj = Inr df"
    "(if nsig \<noteq> 0 then significance_filter alpha nsig df else Inr df) = Inr df'"
    unfolding table_before_sort_def by (auto split: sum.splits)
  then show ?thesis using b t by (rule that)
qed

text \<open>
  Claim C7. The table a call returns holds the rows of the correlation result of lines
  89-142 (filtered when \<^verbatim>\<open>nsig\<close> is not 0), each as often as there and unchanged; it is
  sorted ascending by raw p-value, its index is 0, 1, ..., and its columns are
  \<^verbatim>\<open>taxon, target, corr, pval, adjp\<close> in this order.
\<close>

theorem C7_table_sorted_index_columns:
  assumes "cross_association_table ext art tgt meth nrm alpha multitest nsig = Inr tbl"
  shows "(\<exists>df. table_before_sort ext art tgt meth nrm alpha multitest nsig = Inr df \<and>
               mset (map snd (tbl_rows tbl)) = mset (map snd (tbl_rows df))) \<and>
         sorted (map (\<lambda>ir. pval (snd ir)) (tbl_rows tbl)) \<and>
         map fst (tbl_rows tbl) = [0..<length (tbl_rows tbl)] \<and>
         tbl_columns tbl = [''taxon'', ''target'', ''corr'', ''pval'', ''adjp'']"
proof -
  from assms obtain adj rows df df' where
    a: "assign_adjp rows adj = Inr df" and
    f: "(if nsig \<noteq> 0 then significance_filter alpha nsig df else Inr df) = Inr df'" and
    b: "table_before_sort ext art tgt meth nrm alpha multitest nsig = Inr df'" and
    t: "tbl = reset_index_drop (sort_values_pval ext df')"
    by (rule table_stages)
  have "mset (map snd (tbl_rows tbl)) = mset (map snd (tbl_rows df'))"
    unfolding t by (rule final_rows_mset)
  then have perm: "\<exists>df. table_before_sort ext art tgt meth nrm alpha multitest nsig = Inr df \<and>
               mset (map snd (tbl_rows tbl)) = mset (map snd (tbl_rows df))"
    using b by (intro exI conjI)
  have "tbl_columns df' = tbl_columns df"
    using f by (auto split: if_splits dest: significance_filter_columns)
  then have cols: "tbl_columns tbl = [''taxon'', ''target'', ''corr'', ''pval'', ''adjp'']"
    using a t by (simp only: table_final_shape assign_adjp_columns)
  have srt: "sorted (map (\<lambda>ir. pval (snd ir)) (tbl_rows tbl))"
    unfolding t by (rule sorted_final)
  have idx: "map fst (tbl_rows tbl) = [0..<length (tbl_rows tbl)]"
    unfolding t by (simp only: table_final_shape)
  show ?thesis using perm srt idx cols by (intro conjI)
qed

lemma applymap_labels: "frame_labels (applymap f df) = frame_labels df"
  by (simp add: applymap_def frame_labels_def comp_def case_prod_unfold)

lemma frame_of_rows_labels: "frame_labels (frame_of_rows df rows) = frame_labels df"
proof -
  have "map fst (map (\<lambda>(j, (l, xs)). (l, map (\<lambda>r. r ! j) rows))
                   (zip [0..<length (df_columns df)] (df_columns df))) =
        map fst (df_columns df)"
    by (rule nth_equalityI) (simp_all add: case_prod_unfold)
  then show ?thesis by (simp add: frame_of_rows_def frame_labels_def)
qed

lemma apply_rows_broadcast_labels:
  "apply_rows_broadcast f df = Inr df' \<Longrightarrow> frame_labels df' = frame_labels df"
  by (auto simp: apply_rows_broadcast_def frame_of_rows_labels split: sum.splits)

lemma table_normalize_labels:
  "table_normalize ext nrm feats0 = Inr feats \<Longrightarrow> frame_labels feats = frame_labels feats0"
  by (auto simp: table_normalize_def applymap_labels
           split: if_splits sum.splits dest: apply_rows_broadcast_labels)

lemma map_nth_apply: "map (\<lambda>i. h (xs ! i)) [0..<length xs] = map h xs"
proof -
  have "map (\<lambda>i. h (xs ! i)) [0..<length xs] = map h (map (\<lambda>i. xs ! i) [0..<length xs])"
    by (simp add: comp_def)
  then show ?thesis by (simp add: map_nth)
qed

lemma melt_pairs: "map (\<lambda>(t, g, v). (t, g)) (melt F T m) = grid_pairs F T"
proof -
  have "map (\<lambda>(t, g, v). (t, g)) (melt F T m) =
        concat (map (\<lambda>j. map (\<lambda>i. (F ! i, T ! j)) [0..<length F]) [0..<length T])"
    by (simp add: melt_def map_concat comp_def)
  also have "\<dots> = concat (map (\<lambda>j. (\<lambda>g. map (\<lambda>f. (f, g)) F) (T ! j)) [0..<length T])"
    by (simp add: map_nth_apply [where h = "\<lambda>f. (f, g)" for g])
  also have "\<dots> = grid_pairs F T"
    using map_nth_apply [of "\<lambda>g. map (\<lambda>f. (f, g)) F" T] by (simp add: grid_pairs_def)
  finally show ?thesis .
qed

lemma length_grid_pairs: "length (grid_pairs F T) = length F * length T"
  by (induction T) (simp_all add: grid_pairs_def)

lemma set_grid_pairs: "set (grid_pairs F T) = set F \<times> set T"
  by (auto simp: grid_pairs_def)

lemma distinct_grid_pairs: "distinct F \<Longrightarrow> distinct T \<Longrightarrow> distinct (grid_pairs F T)"
proof (induction T)
  case Nil then show ?case by (simp add: grid_pairs_def)
next
  case (Cons g T)
  have "distinct (map (\<lambda>f. (f, g)) F)"
    using Cons.prems(1) by (simp add: distinct_map inj_on_def)
  moreover have "set (map (\<lambda>f. (f, g)) F) \<inter> set (grid_pairs F T) = {}"
    using Cons.prems(2) by (auto simp: set_grid_pairs)
  moreover have "distinct (grid_pairs F T)" using Cons by simp
  ultimately show ?case by (simp add: grid_pairs_def)
qed

lemma length_melt: "length (melt F T m) = length F * length T"
  using melt_pairs [of F T m] length_grid_pairs [of F T] by (metis length_map)

lemma result_rows_pairs:
  "map (\<lambda>(t, g, c, p). (t, g)) (result_rows feats tgt m) =
   grid_pairs (frame_labels feats) (frame_labels tgt)"
proof -
  let ?A = "melt (frame_labels feats) (frame_labels tgt) (map (map fst) m)"
  let ?B = "melt (frame_labels feats) (frame_labels tgt) (map (map snd) m)"
  have "map (\<lambda>(t, g, c, p). (t, g)) (result_rows feats tgt m) =
        map (\<lambda>(t, g, v). (t, g)) (map fst (zip ?A ?B))"
    by (simp add: result_rows_def comp_def case_prod_unfold)
  also have "map fst (zip ?A ?B) = ?A" by (simp add: length_melt)
  finally show ?thesis by (simp only: melt_pairs)
qed

lemma assign_adjp_pairs:
  assumes "assign_adjp rows adj = Inr df"
  shows "map (\<lambda>ir. (taxon (snd ir), target (snd ir))) (tbl_rows df) =
         map (\<lambda>(t, g, c, p). (t, g)) rows"
proof -
  have len: "length adj = length rows" using assms by (auto simp: assign_adjp_def split: if_splits)
  have rows: "tbl_rows df =
        zip [0..<length rows]
          (map (\<lambda>((t, g, c, p), a). \<lparr>taxon = t, target = g, corr = c, pval = p, adjp = a\<rparr>)
             (zip rows adj))"
    using assms by (auto simp: assign_adjp_def split: if_splits)
  have "map (\<lambda>ir. (taxon (snd ir), target (snd ir))) (tbl_rows df) =
        map (\<lambda>r. (taxon r, target r)) (map snd (tbl_rows df))"
    by (simp add: comp_def)
  also have "map snd (tbl_rows df) =
        map (\<lambda>((t, g, c, p), a). \<lparr>taxon = t, target = g, corr = c, pval = p, adjp = a\<rparr>)
          (zip rows adj)"
    unfolding rows using len by simp
  also have "map (\<lambda>r. (taxon r, target r)) \<dots> = map (\<lambda>(t, g, c, p). (t, g)) (map fst (zip rows adj))"
    by (simp add: comp_def case_prod_unfold)
  also have "map fst (zip rows adj) = rows" using len by simp
  finally show ?thesis .
qed

lemma final_pairs_mset:
  "mset (map (\<lambda>ir. (taxon (snd ir), target (snd ir)))
           (tbl_rows (reset_index_drop (sort_values_pval ext df)))) =
   mset (map (\<lambda>ir. (taxon (snd ir), target (snd ir))) (tbl_rows df))"
proof -
  have "mset (map (\<lambda>r. (taxon r, target r))
                (map snd (tbl_rows (reset_index_drop (sort_values_pval ext df))))) =
        mset (map (\<lambda>r. (taxon r, target r)) (map snd (tbl_rows df)))"
    using final_rows_mset [of ext df] by (simp only: mset_map)
  then show ?thesis by (simp only: map_map comp_def)
qed

lemma table_pairs_mset:
  assumes "table_import ext art = Inr feats"
      and "cross_association_table ext art tgt meth nrm alpha multitest 0 = Inr tbl"
  shows "mset (map (\<lambda>ir. (taxon (snd ir), target (snd ir))) (tbl_rows tbl)) =
         mset (grid_pairs (frame_labels feats) (frame_labels tgt))"
proof -
  from assms(2) obtain feats0 feats' m adj df df' where
    i: "table_import ext art = Inr feats0" and
    n: "table_normalize ext nrm feats0 = Inr feats'" and
    a: "assign_adjp (result_rows feats' tgt m) adj = Inr df" and
    f: "(if (0::int) \<noteq> 0 then significance_filter alpha 0 df else Inr df) = Inr df'" and
    t: "tbl = reset_index_drop (sort_values_pval ext df')"
    by (rule table_stages)
  have "feats0 = feats" using i assms(1) by simp
  then have lab: "frame_labels feats' = frame_labels feats"
    using n by (simp add: table_normalize_labels)
  have "df' = df" using f by simp
  then have "mset (map (\<lambda>ir. (taxon (snd ir), target (snd ir))) (tbl_rows tbl)) =
             mset (map (\<lambda>ir. (taxon (snd ir), target (snd ir))) (tbl_rows df))"
    unfolding t by (simp only: final_pairs_mset)
  also have "\<dots> = mset (grid_pairs (frame_labels feats') (frame_labels tgt))"
    by (simp only: assign_adjp_pairs [OF a] result_rows_pairs)
  finally show ?thesis by (simp only: lab)
qed

text \<open>
  Claim C4. For a feature table with distinct column labels and a target table with
  distinct column labels, the table returned with \<^verbatim>\<open>nsig = 0\<close> has one row per pair of
  a feature column and a target column: as many rows as the product of the two numbers of
  columns, no (taxon, target) pair twice, and the pairs are exactly the Cartesian product.
\<close>

theorem C4_table_cartesian_product:
  assumes "distinct (frame_labels feats)" and "distinct (frame_labels tgt)"
      and "table_import ext art = Inr feats"
      and "cross_association_table ext art tgt meth nrm alpha multitest 0 = Inr tbl"
  shows "length (tbl_rows tbl) = length (frame_labels feats) * length (frame_labels tgt) \<and>
         distinct (map (\<lambda>ir. (taxon (snd ir), target (snd ir))) (tbl_rows tbl)) \<and>
         set (map (\<lambda>ir. (taxon (snd ir), target (snd ir))) (tbl_rows tbl)) =
           set (frame_labels feats) \<times> set (frame_labels tgt)"
proof -
  let ?pairs = "map (\<lambda>ir. (taxon (snd ir), target (snd ir))) (tbl_rows tbl)"
  let ?grid = "grid_pairs (frame_labels feats) (frame_labels tgt)"
  have ms: "mset ?pairs = mset ?grid" using assms(3,4) by (rule table_pairs_mset)
  have "length ?pairs = length ?grid" using ms by (rule mset_eq_length)
  then have "length (tbl_rows tbl) = length (frame_labels feats) * length (frame_labels tgt)"
    by (simp add: length_grid_pairs)
  moreover have "distinct ?pairs"
    using ms distinct_grid_pairs [OF assms(1,2)] by (metis mset_eq_imp_distinct_iff)
  moreover have "set ?pairs = set (frame_labels feats) \<times> set (frame_labels tgt)"
    using ms set_grid_pairs by (metis mset_eq_setD)
  ultimately show ?thesis by simp
qed

lemma example_import: "table_import example_externals (ArtifactFrame example_feats) = Inr example_feats"
  by (simp add: table_import_def)

lemma example_labels:
  "frame_labels example_feats = [''f1'']" "frame_labels example_target = [''a'', ''b'', ''c'']"
  by (simp_all add: frame_labels_def example_feats_def example_target_def)

theorem C7_table_witness:
  "\<exists>tbl. cross_association_table example_externals (ArtifactFrame example_feats) example_target
            ''pearson'' None (1/20) ''fdr_bh'' 0 = Inr tbl \<and>
         (\<exists>df. table_before_sort example_externals (ArtifactFrame example_feats) example_target
                  ''pearson'' None (1/20) ''fdr_bh'' 0 = Inr df \<and>
               mset (map snd (tbl_rows tbl)) = mset (map snd (tbl_rows df))) \<and>
         sorted (map (\<lambda>ir. pval (snd ir)) (tbl_rows tbl)) \<and>
         map fst (tbl_rows tbl) = [0..<length (tbl_rows tbl)] \<and>
         tbl_columns tbl = [''taxon'', ''target'', ''corr'', ''pval'', ''adjp'']"
  by (rule exI, rule conjI, rule example_table,
      rule C7_table_sorted_index_columns [OF example_table])

theorem C4_table_witness:
  "\<exists>tbl. cross_association_table example_externals (ArtifactFrame example_feats) example_target
            ''pearson'' None (1/20) ''fdr_bh'' 0 = Inr tbl \<and>
         length (tbl_rows tbl) = 1 * 3 \<and>
         distinct (map (\<lambda>ir. (taxon (snd ir), target (snd ir))) (tbl_rows tbl)) \<and>
         set (map (\<lambda>ir. (taxon (snd ir), target (snd ir))) (tbl_rows tbl)) =
           {''f1''} \<times> {''a'', ''b'', ''c''}"
proof -
  have d1: "distinct (frame_labels example_feats)" by (simp add: example_labels)
  have d2: "distinct (frame_labels example_target)" by (simp add: example_labels)
  from C4_table_cartesian_product [OF d1 d2 example_import example_table]
  show ?thesis using example_table by (simp add: example_labels)
qed

section \<open>The significance filter\<close>

lemma find_SomeD: "find P xs = Some x \<Longrightarrow> P x \<and> x \<in> set xs"
  by (induction xs) (auto split: if_splits)

lemma sig_cell_iff:
  assumes "distinct (map (\<lambda>r. (idx r, col r)) rows)"
  shows "cell_le alpha (map_option val (find (\<lambda>r. idx r = i \<and> col r = c) rows)) \<longleftrightarrow>
         (\<exists>r\<in>set rows. idx r = i \<and> col r = c \<and> val r \<le> alpha)"
proof (cases "find (\<lambda>r. idx r = i \<and> col r = c) rows")
  case None
  then have no: "\<not> (\<exists>r\<in>set rows. idx r = i \<and> col r = c)" by (simp add: find_None_iff)
  have "\<not> cell_le alpha (map_option val (find (\<lambda>r. idx r = i \<and> col r = c) rows))"
    by (simp add: None cell_le_def)
  moreover have "\<not> (\<exists>r\<in>set rows. idx r = i \<and> col r = c \<and> val r \<le> alpha)"
    using no by blast
  ultimately show ?thesis by blast
next
  case (Some r')
  have r': "idx r' = i \<and> col r' = c" "r' \<in> set rows"
    using find_SomeD [OF Some] by blast+
  have inj: "inj_on (\<lambda>r. (idx r, col r)) (set rows)" using assms by (simp add: distinct_map)
  have uniq: "r = r'" if "r \<in> set rows" "idx r = i \<and> col r = c" for r
  proof -
    have "(\<lambda>r. (idx r, col r)) r = (\<lambda>r. (idx r, col r)) r'" using that(2) r'(1) by simp
    from inj_onD [OF inj this that(1) r'(2)] show ?thesis .
  qed
  have lhs: "cell_le alpha (map_option val (find (\<lambda>r. idx r = i \<and> col r = c) rows)) \<longleftrightarrow>
        val r' \<le> alpha"
    by (simp add: Some cell_le_def)
  have rhs: "(\<exists>r\<in>set rows. idx r = i \<and> col r = c \<and> val r \<le> alpha) \<longleftrightarrow> val r' \<le> alpha"
  proof
    assume "\<exists>r\<in>set rows. idx r = i \<and> col r = c \<and> val r \<le> alpha"
    then obtain r where r: "r \<in> set rows" "idx r = i \<and> col r = c" "val r \<le> alpha" by blast
    then have "r = r'" using uniq by blast
    then show "val r' \<le> alpha" using r(3) by simp
  next
    assume "val r' \<le> alpha"
    then show "\<exists>r\<in>set rows. idx r = i \<and> col r = c \<and> val r \<le> alpha"
      using r' by blast
  qed
  show ?thesis unfolding lhs rhs ..
qed

lemma length_filter_card:
  assumes "distinct xs"
  shows "length (filter P xs) = card {x \<in> set xs. P x}"
proof -
  have "{x \<in> set xs. P x} = {x. P x} \<inter> set xs" by auto
  then show ?thesis using assms by (simp only: distinct_length_filter)
qed

lemma card_sig_labels:
  assumes inj: "inj_on (\<lambda>r. (f r, g r)) (set rows)"
  shows "card {c \<in> g ` set rows. \<exists>r\<in>set rows. f r = i \<and> g r = c \<and> Q r} =
         card {r \<in> set rows. f r = i \<and> Q r}"
proof -
  let ?R = "{r \<in> set rows. f r = i \<and> Q r}"
  have inj_g: "inj_on g ?R"
  proof (rule inj_onI)
    fix x y assume "x \<in> ?R" "y \<in> ?R" "g x = g y"
    then have "x \<in> set rows" "y \<in> set rows" "(f x, g x) = (f y, g y)" by auto
    then have "x \<in> set rows" "y \<in> set rows"
      "(\<lambda>r. (f r, g r)) x = (\<lambda>r. (f r, g r)) y" by simp_all
    from inj_onD [OF inj this(3) this(1) this(2)] show "x = y" .
  qed
  have "{c \<in> g ` set rows. \<exists>r\<in>set rows. f r = i \<and> g r = c \<and> Q r} = g ` ?R"
  proof (intro set_eqI iffI)
    fix c assume "c \<in> {c \<in> g ` set rows. \<exists>r\<in>set rows. f r = i \<and> g r = c \<and> Q r}"
    then obtain r where "r \<in> set rows" "f r = i" "g r = c" "Q r" by blast
    then have "r \<in> ?R" by simp
    then show "c \<in> g ` ?R" using \<open>g r = c\<close> by blast
  next
    fix c assume "c \<in> g ` ?R"
    then obtain r where "r \<in> ?R" "c = g r" by blast
    then show "c \<in> {c \<in> g ` set rows. \<exists>r\<in>set rows. f r = i \<and> g r = c \<and> Q r}" by blast
  qed
  then show ?thesis using inj_g by (simp only: card_image)
qed

lemma count_sig_cells:
  assumes "distinct (map (\<lambda>r. (idx r, col r)) rows)"
  shows "length (filter (\<lambda>c. cell_le alpha (map_option val (find (\<lambda>r. idx r = i \<and> col r = c) rows)))
                   (sort (remdups (map col rows)))) =
         length (filter (\<lambda>r. idx r = i \<and> val r \<le> alpha) rows)"
proof -
  let ?C = "sort (remdups (map col rows))"
  let ?P = "\<lambda>c. \<exists>r\<in>set rows. idx r = i \<and> col r = c \<and> val r \<le> alpha"
  have dC: "distinct ?C" by simp
  have sC: "set ?C = col ` set rows" by simp
  have dR: "distinct rows" and inj: "inj_on (\<lambda>r. (idx r, col r)) (set rows)"
    using assms by (simp_all add: distinct_map)
  have "filter (\<lambda>c. cell_le alpha (map_option val (find (\<lambda>r. idx r = i \<and> col r = c) rows))) ?C =
        filter ?P ?C"
    by (simp only: sig_cell_iff [OF assms])
  then have "length (filter (\<lambda>c. cell_le alpha (map_option val (find (\<lambda>r. idx r = i \<and> col r = c) rows))) ?C) =
        length (filter ?P ?C)"
    by (rule arg_cong)
  also have "\<dots> = card {c \<in> set ?C. ?P c}" using dC by (rule length_filter_card)
  also have "\<dots> = card {c \<in> col ` set rows. ?P c}" by (simp only: sC)
  also have "\<dots> = card {r \<in> set rows. idx r = i \<and> val r \<le> alpha}"
    using inj by (rule card_sig_labels)
  also have "\<dots> = length (filter (\<lambda>r. idx r = i \<and> val r \<le> alpha) rows)"
    using dR by (rule length_filter_card [symmetric])
  finally show ?thesis .
qed

lemma count_sig_cells_col:
  assumes "distinct (map (\<lambda>r. (idx r, col r)) rows)"
  shows "length (filter (\<lambda>i. cell_le alpha (map_option val (find (\<lambda>r. idx r = i \<and> col r = c) rows)))
                   (sort (remdups (map idx rows)))) =
         length (filter (\<lambda>r. col r = c \<and> val r \<le> alpha) rows)"
proof -
  let ?I = "sort (remdups (map idx rows))"
  let ?P = "\<lambda>i. \<exists>r\<in>set rows. idx r = i \<and> col r = c \<and> val r \<le> alpha"
  let ?P' = "\<lambda>i. \<exists>r\<in>set rows. col r = c \<and> idx r = i \<and> val r \<le> alpha"
  have dI: "distinct ?I" by simp
  have sI: "set ?I = idx ` set rows" by simp
  have dR: "distinct rows" and inj: "inj_on (\<lambda>r. (idx r, col r)) (set rows)"
    using assms by (simp_all add: distinct_map)
  have inj': "inj_on (\<lambda>r. (col r, idx r)) (set rows)"
  proof (rule inj_onI)
    fix x y assume "x \<in> set rows" "y \<in> set rows" "(col x, idx x) = (col y, idx y)"
    then have "x \<in> set rows" "y \<in> set rows" "(idx x, col x) = (idx y, col y)" by auto
    then have "x \<in> set rows" "y \<in> set rows"
      "(\<lambda>r. (idx r, col r)) x = (\<lambda>r. (idx r, col r)) y" by simp_all
    from inj_onD [OF inj this(3) this(1) this(2)] show "x = y" .
  qed
  have "filter (\<lambda>i. cell_le alpha (map_option val (find (\<lambda>r. idx r = i \<and> col r = c) rows))) ?I =
        filter ?P ?I"
    by (simp only: sig_cell_iff [OF assms])
  then have "length (filter (\<lambda>i. cell_le alpha (map_option val (find (\<lambda>r. idx r = i \<and> col r = c) rows))) ?I) =
        length (filter ?P ?I)"
    by (rule arg_cong)
  also have "\<dots> = card {i \<in> set ?I. ?P i}" using dI by (rule length_filter_card)
  also have "{i \<in> set ?I. ?P i} = {i \<in> idx ` set rows. ?P' i}"
    unfolding sI by (rule Collect_cong) blast
  also have "card {i \<in> idx ` set rows. ?P' i} =
        card {r \<in> set rows. col r = c \<and> val r \<le> alpha}"
    using inj' by (rule card_sig_labels)
  also have "\<dots> = length (filter (\<lambda>r. col r = c \<and> val r \<le> alpha) rows)"
    using dR by (rule length_filter_card [symmetric])
  finally show ?thesis .
qed

lemma set_survivors:
  "set (survivors k ls (map cnt ls)) = {l \<in> set ls. k \<le> int (cnt l)}"
proof -
  have z: "zip ls (map cnt ls) = map (\<lambda>l. (l, cnt l)) ls"
    by (induction ls) simp_all
  have "set (map fst (filter (\<lambda>lc. k \<le> int (snd lc)) (map (\<lambda>l. (l, cnt l)) ls))) =
        {l \<in> set ls. k \<le> int (cnt l)}"
    by (induction ls) auto
  then show ?thesis by (simp only: survivors_def z)
qed

lemma length_filter_id_map: "length (filter id (map f xs)) = length (filter f xs)"
  by (induction xs) simp_all

lemma length_filter_nth_map:
  "j < length cs \<Longrightarrow>
   length (filter (\<lambda>row. row ! j) (map (\<lambda>i. map (S i) cs) is)) =
   length (filter (\<lambda>i. S i (cs ! j)) is)"
  by (induction "is") simp_all

lemma pivot_distinct:
  assumes "distinct (map (\<lambda>r. (idx r, col r)) rows)"
  shows "pivot idx col val rows =
         Inr \<lparr>pv_index = sort (remdups (map idx rows)),
              pv_columns = sort (remdups (map col rows)),
              pv_cells =
                map (\<lambda>i. map (\<lambda>c. map_option val (find (\<lambda>r. idx r = i \<and> col r = c) rows))
                           (sort (remdups (map col rows))))
                  (sort (remdups (map idx rows)))\<rparr>"
  using assms by (simp add: pivot_def)

lemma taxon_counts:
  assumes "distinct (map (\<lambda>r. (taxon r, target r)) rows)"
  shows "map (\<lambda>row. length (filter id row))
           (map (map (cell_le alpha))
              (map (\<lambda>i. map (\<lambda>c. map_option adjp (find (\<lambda>r. taxon r = i \<and> target r = c) rows))
                         (sort (remdups (map target rows))))
                 (sort (remdups (map taxon rows))))) =
         map (n_sig_targets alpha rows) (sort (remdups (map taxon rows)))"
proof -
  have "length (filter id (map (cell_le alpha)
           (map (\<lambda>c. map_option adjp (find (\<lambda>r. taxon r = i \<and> target r = c) rows))
              (sort (remdups (map target rows)))))) = n_sig_targets alpha rows i" for i
  proof -
    have "length (filter id (map (cell_le alpha)
           (map (\<lambda>c. map_option adjp (find (\<lambda>r. taxon r = i \<and> target r = c) rows))
              (sort (remdups (map target rows)))))) =
          length (filter (\<lambda>c. cell_le alpha (map_option adjp (find (\<lambda>r. taxon r = i \<and> target r = c) rows)))
              (sort (remdups (map target rows))))"
      by (simp only: map_map comp_def length_filter_id_map)
    also have "\<dots> = length (filter (\<lambda>r. taxon r = i \<and> adjp r \<le> alpha) rows)"
      using assms by (rule count_sig_cells)
    finally show ?thesis by (simp only: n_sig_targets_def)
  qed
  then show ?thesis by (simp only: map_map comp_def)
qed

lemma target_counts:
  assumes "distinct (map (\<lambda>r. (taxon r, target r)) rows)"
  shows "map (\<lambda>j. length (filter (\<lambda>row. row ! j)
           (map (map (cell_le alpha))
              (map (\<lambda>i. map (\<lambda>c. map_option adjp (find (\<lambda>r. taxon r = i \<and> target r = c) rows))
                         (sort (remdups (map target rows))))
                 (sort (remdups (map taxon rows)))))))
           [0..<length (sort (remdups (map target rows)))] =
         map (n_sig_taxa alpha rows) (sort (remdups (map target rows)))"
proof -
  let ?C = "sort (remdups (map target rows))"
  let ?I = "sort (remdups (map taxon rows))"
  let ?S = "\<lambda>i c. cell_le alpha (map_option adjp (find (\<lambda>r. taxon r = i \<and> target r = c) rows))"
  have sig: "map (map (cell_le alpha))
              (map (\<lambda>i. map (\<lambda>c. map_option adjp (find (\<lambda>r. taxon r = i \<and> target r = c) rows)) ?C) ?I) =
             map (\<lambda>i. map (?S i) ?C) ?I"
    by (simp only: map_map comp_def)
  have cnt: "length (filter (\<lambda>row. row ! j) (map (\<lambda>i. map (?S i) ?C) ?I)) =
             n_sig_taxa alpha rows (?C ! j)" if "j < length ?C" for j
  proof -
    have "length (filter (\<lambda>row. row ! j) (map (\<lambda>i. map (?S i) ?C) ?I)) =
          length (filter (\<lambda>i. ?S i (?C ! j)) ?I)"
      using that by (rule length_filter_nth_map)
    also have "\<dots> = length (filter (\<lambda>r. target r = ?C ! j \<and> adjp r \<le> alpha) rows)"
      using assms by (rule count_sig_cells_col)
    finally show ?thesis by (simp only: n_sig_taxa_def)
  qed
  have "map (\<lambda>j. length (filter (\<lambda>row. row ! j) (map (\<lambda>i. map (?S i) ?C) ?I))) [0..<length ?C] =
        map (\<lambda>j. n_sig_taxa alpha rows (?C ! j)) [0..<length ?C]"
  proof (rule map_cong [OF refl])
    fix j assume "j \<in> set [0..<length ?C]"
    then have "j < length ?C" by (simp only: set_upt atLeastLessThan_iff)
    then show "length (filter (\<lambda>row. row ! j) (map (\<lambda>i. map (?S i) ?C) ?I)) =
               n_sig_taxa alpha rows (?C ! j)"
      by (rule cnt)
  qed
  also have "\<dots> = map (n_sig_taxa alpha rows) ?C" by (rule map_nth_apply)
  finally show ?thesis unfolding sig .
qed

lemma significance_filter_stage:
  assumes d: "distinct (map (\<lambda>r. (taxon r, target r)) (map snd (tbl_rows df)))"
  shows "significance_filter alpha k df =
         Inr (df\<lparr>tbl_rows :=
               filter (\<lambda>ir. target (snd ir) \<in>
                         set (survivors k (sort (remdups (map target (map snd (tbl_rows df)))))
                                (map (n_sig_taxa alpha (map snd (tbl_rows df)))
                                   (sort (remdups (map target (map snd (tbl_rows df))))))))
                 (filter (\<lambda>ir. taxon (snd ir) \<in>
                         set (survivors k (sort (remdups (map taxon (map snd (tbl_rows df)))))
                                (map (n_sig_targets alpha (map snd (tbl_rows df)))
                                   (sort (remdups (map taxon (map snd (tbl_rows df))))))))
                    (tbl_rows df))\<rparr>)"
  unfolding significance_filter_def pivot_distinct [OF d]
  by (simp only: sum.case Let_def pivot_table.select_convs taxon_counts [OF d] target_counts [OF d])

lemma significance_filter_spec:
  assumes d: "distinct (map (\<lambda>r. (taxon r, target r)) (map snd (tbl_rows df)))"
  shows "significance_filter alpha k df =
         Inr (df\<lparr>tbl_rows :=
               filter (\<lambda>ir. keep_row alpha k (map snd (tbl_rows df)) (snd ir)) (tbl_rows df)\<rparr>)"
proof -
  let ?rows = "map snd (tbl_rows df)"
  have "filter (\<lambda>ir. target (snd ir) \<in>
                  set (survivors k (sort (remdups (map target ?rows)))
                         (map (n_sig_taxa alpha ?rows) (sort (remdups (map target ?rows))))))
          (filter (\<lambda>ir. taxon (snd ir) \<in>
                  set (survivors k (sort (remdups (map taxon ?rows)))
                         (map (n_sig_targets alpha ?rows) (sort (remdups (map taxon ?rows))))))
             (tbl_rows df)) =
        filter (\<lambda>ir. keep_row alpha k ?rows (snd ir)) (tbl_rows df)"
    unfolding filter_filter
  proof (rule filter_cong [OF refl])
    fix ir assume "ir \<in> set (tbl_rows df)"
    then have "taxon (snd ir) \<in> set (sort (remdups (map taxon ?rows)))"
              "target (snd ir) \<in> set (sort (remdups (map target ?rows)))"
      by (simp_all add: image_iff) blast+
    then show "(taxon (snd ir) \<in>
                  set (survivors k (sort (remdups (map taxon ?rows)))
                         (map (n_sig_targets alpha ?rows) (sort (remdups (map taxon ?rows))))) \<and>
                target (snd ir) \<in>
                  set (survivors k (sort (remdups (map target ?rows)))
                         (map (n_sig_taxa alpha ?rows) (sort (remdups (map target ?rows)))))) =
               keep_row alpha k ?rows (snd ir)"
      unfolding set_survivors keep_row_def by blast
  qed
  then show ?thesis unfolding significance_filter_stage [OF d] by (rule arg_cong)
qed

lemma length_filter_mset:
  assumes "mset xs = mset ys"
  shows "length (filter Q xs) = length (filter Q ys)"
proof -
  have "mset (filter Q xs) = mset (filter Q ys)" using assms by (simp only: mset_filter)
  then show ?thesis by (rule mset_eq_length)
qed

lemma keep_row_mset:
  assumes "mset xs = mset ys"
  shows "keep_row alpha k xs = keep_row alpha k ys"
  by (rule ext)
     (simp only: keep_row_def n_sig_targets_def n_sig_taxa_def length_filter_mset [OF assms])

lemma map_snd_filter: "map snd (filter (\<lambda>ir. K (snd ir)) xs) = filter K (map snd xs)"
  by (induction xs) simp_all

text \<open>
  Claim C2. For feature and target tables with distinct column labels and a minimum
  count \<open>k > 0\<close>, the call with \<^verbatim>\<open>nsig = k\<close> returns a table, and its rows are exactly
  the rows of the unfiltered result (the call with \<^verbatim>\<open>nsig = 0\<close>) whose taxon has at
  least \<open>k\<close> significant targets and whose target has at least \<open>k\<close> significant taxa, both
  counted as \<open>adjp \<le> alpha\<close> over all rows of the unfiltered result. Each such row is
  there once for each time it is in the unfiltered result; the order among rows of equal
  p-value is the sorting routine's.
\<close>

theorem C2_filter_keeps_intersection:
  assumes d1: "distinct (frame_labels feats)" and d2: "distinct (frame_labels tgt)"
      and imp: "table_import ext art = Inr feats"
      and full: "cross_association_table ext art tgt meth nrm alpha multitest 0 = Inr full"
      and k: "0 < k"
  shows "\<exists>tbl. cross_association_table ext art tgt meth nrm alpha multitest k = Inr tbl \<and>
               mset (map snd (tbl_rows tbl)) =
               mset (filter (keep_row alpha k (map snd (tbl_rows full)))
                       (map snd (tbl_rows full)))"
proof -
  from full obtain feats0 feats' m adj df df' where
    i: "table_import ext art = Inr feats0" and
    n: "table_normalize ext nrm feats0 = Inr feats'" and
    c: "correlate ext meth feats' tgt = Inr m" and
    mt: "multipletests ext (map (\<lambda>(t, g, c, p). p) (result_rows feats' tgt m)) multitest = Inr adj" and
    a: "assign_adjp (result_rows feats' tgt m) adj = Inr df" and
    f: "(if (0::int) \<noteq> 0 then significance_filter alpha 0 df else Inr df) = Inr df'" and
    t: "full = reset_index_drop (sort_values_pval ext df')"
    by (rule table_stages)
  have "feats0 = feats" using i imp by simp
  then have lab: "frame_labels feats' = frame_labels feats"
    using n by (simp add: table_normalize_labels)
  have df': "df' = df" using f by simp
  have "map (\<lambda>r. (taxon r, target r)) (map snd (tbl_rows df)) =
        map (\<lambda>ir. (taxon (snd ir), target (snd ir))) (tbl_rows df)"
    by (simp add: comp_def)
  also have "\<dots> = grid_pairs (frame_labels feats) (frame_labels tgt)"
    by (simp only: assign_adjp_pairs [OF a] result_rows_pairs lab)
  finally have d: "distinct (map (\<lambda>r. (taxon r, target r)) (map snd (tbl_rows df)))"
    using distinct_grid_pairs [OF d1 d2] by simp
  let ?K = "keep_row alpha k (map snd (tbl_rows df))"
  let ?dfk = "df\<lparr>tbl_rows := filter (\<lambda>ir. ?K (snd ir)) (tbl_rows df)\<rparr>"
  have call: "cross_association_table ext art tgt meth nrm alpha multitest k =
        Inr (reset_index_drop (sort_values_pval ext ?dfk))"
    using k
    by (simp add: cross_association_table_def table_before_sort_def i n c mt a
          significance_filter_spec [OF d])
  have full_rows: "mset (map snd (tbl_rows full)) = mset (map snd (tbl_rows df))"
    unfolding t df' by (rule final_rows_mset)
  have K: "keep_row alpha k (map snd (tbl_rows full)) = ?K"
    using full_rows by (rule keep_row_mset)
  have "mset (map snd (tbl_rows (reset_index_drop (sort_values_pval ext ?dfk)))) =
        mset (map snd (tbl_rows ?dfk))"
    by (rule final_rows_mset)
  also have "\<dots> = mset (filter ?K (map snd (tbl_rows df)))"
    by (simp add: map_snd_filter)
  also have "\<dots> = filter_mset ?K (mset (map snd (tbl_rows df)))"
    by (simp only: mset_filter)
  also have "\<dots> = filter_mset ?K (mset (map snd (tbl_rows full)))"
    by (simp only: full_rows)
  also have "\<dots> = mset (filter ?K (map snd (tbl_rows full)))"
    by (simp only: mset_filter)
  finally have "mset (map snd (tbl_rows (reset_index_drop (sort_values_pval ext ?dfk)))) =
        mset (filter (keep_row alpha k (map snd (tbl_rows full))) (map snd (tbl_rows full)))"
    unfolding K .
  then show ?thesis using call by (intro exI conjI)
qed

theorem C2_filter_witness:
  "\<exists>tbl. cross_association_table example_externals (ArtifactFrame example_feats) example_target
            ''pearson'' None (1/10) ''fdr_bh'' 1 = Inr tbl \<and>
         mset (map snd (tbl_rows tbl)) =
           {#\<lparr>taxon = ''f1'', target = ''a'', corr = 9996/10000, pval = 7/400, adjp = 21/400\<rparr>#}"
proof -
  have d1: "distinct (frame_labels example_feats)" by (simp add: example_labels)
  have d2: "distinct (frame_labels example_target)" by (simp add: example_labels)
  have k: "(0::int) < 1" by simp
  from C2_filter_keeps_intersection [OF d1 d2 example_import example_table [of "1/10"] k]
  show ?thesis
    by (simp add: keep_row_def n_sig_targets_def n_sig_taxa_def)
qed

section \<open>Errors, normalization and the heatmap markers\<close>

text \<open>
  Claim C8 (the code at a failing input). With \<^verbatim>\<open>normalize='clr'\<close> and a feature table
  that has a row, the lambda of line 101 reads the global name \<^verbatim>\<open>clr\<close>, which no import
  binds: the call raises NameError and returns no matrix. The same holds of the helper of
  \<^verbatim>\<open>utils.py\<close>.
\<close>

theorem C8_clr_name_error:
  "table_normalize example_externals (Some ''clr'') example_feats = Inl (NameError ''clr'') \<and>
   cross_association_table example_externals (ArtifactFrame example_feats) example_target
     ''pearson'' (Some ''clr'') (1/20) ''fdr_bh'' 0 = Inl (NameError ''clr'') \<and>
   normalize_feature_table example_externals example_feats (Some ''clr'') = Inl (NameError ''clr'')"
  by (simp add: table_normalize_def normalize_feature_table_def cross_association_table_def
        table_before_sort_def table_import_def apply_rows_broadcast_def frame_rows_def load_global_def
        module_globals_def utils_globals_def example_feats_def)

text \<open>
  Claim C5, as stated, fails: the empty string is outside the recognized set, and
  \<^verbatim>\<open>not normalize\<close> treats it as no normalization; the table is produced.
\<close>

theorem C5_empty_string_counterexample:
  "cross_association_table example_externals (ArtifactFrame example_feats) example_target
     ''pearson'' (Some []) (1/20) ''fdr_bh'' 0 =
   Inr \<lparr>tbl_columns = [''taxon'', ''target'', ''corr'', ''pval'', ''adjp''],
        tbl_rows =
          [(0, \<lparr>taxon = ''f1'', target = ''a'', corr = 9996/10000, pval = 7/400, adjp = 21/400\<rparr>),
           (1, \<lparr>taxon = ''f1'', target = ''b'', corr = 0, pval = 1, adjp = 1\<rparr>),
           (2, \<lparr>taxon = ''f1'', target = ''c'', corr = 0, pval = 1, adjp = 1\<rparr>)]\<rparr>"
  by (simp add: table_defs example_defs bh_defs)

text \<open>
  Claim C6, as stated, fails: with a feature table without columns the loop body never
  runs, the method is never looked up, and the engine returns an (empty) matrix.
\<close>

theorem C6_empty_grid_counterexample:
  "correlate example_externals ''kendall'' (example_feats\<lparr>df_columns := []\<rparr>) example_target = Inr []"
  by (simp add: correlate_def)


lemmas heatmap_defs = cross_association_heatmap_def pivot_def val2sig_def cell_le_def

text \<open>
  Claim C3 (the code at a failing input). On the worked input with \<^verbatim>\<open>alpha = 0.05\<close> and
  \<^verbatim>\<open>marksig=True\<close> the cell of (\<^verbatim>\<open>a\<close>, \<^verbatim>\<open>f1\<close>) is marked \<^verbatim>\<open>*\<close>: its raw p-value is
  0.0175, while its adjusted p-value is 0.0525 (lemma \<open>example_table\<close>), above \<^verbatim>\<open>alpha\<close>.
  The marker reads the pivot of \<^verbatim>\<open>pval\<close>, not of \<^verbatim>\<open>adjp\<close>.
\<close>

theorem C3_heatmap_marks_raw_pvalue:
  "cross_association_heatmap example_externals (ArtifactFrame example_feats) example_target
     ''pearson'' None (1/20) ''fdr_bh'' 0 True =
   Inr \<lparr>hm_corr = \<lparr>pv_index = [''a'', ''b'', ''c''], pv_columns = [''f1''],
                    pv_cells = [[Some (9996/10000)], [Some 0], [Some 0]]\<rparr>,
        hm_annot = Some \<lparr>pv_index = [''a'', ''b'', ''c''], pv_columns = [''f1''],
                          pv_cells = [[''*''], [[]], [[]]]\<rparr>,
        hm_fmt = []\<rparr> \<and>
   cell_le (1/20) (Some (7/400)) \<and> \<not> cell_le (1/20) (Some (21/400))"
  by (simp add: heatmap_defs example_table)


lemma methods_unknown:
  "meth \<notin> {''pearson'', ''spearman''} \<Longrightarrow> methods ext meth = None"
  by (auto simp: methods_def)

lemma correlate_unknown_method:
  assumes "meth \<notin> {''pearson'', ''spearman''}" "df_columns feats \<noteq> []" "df_columns tgt \<noteq> []"
  shows "correlate ext meth feats tgt = Inl (KeyError meth)"
proof -
  have f: "[0..<length (df_columns feats)] = 0 # [Suc 0..<length (df_columns feats)]"
    using assms(2) by (simp add: upt_conv_Cons)
  have t: "[0..<length (df_columns tgt)] = 0 # [Suc 0..<length (df_columns tgt)]"
    using assms(3) by (simp add: upt_conv_Cons)
  show ?thesis
    unfolding correlate_def f t by (simp add: methods_unknown [OF assms(1)])
qed

text \<open>
  Claim C6, amended. For a method name other than \<^verbatim>\<open>pearson\<close> and \<^verbatim>\<open>spearman\<close>, and a
  feature table and a target table with at least one column each, the first lookup in the
  dictionary of methods raises KeyError with the name: the engine returns no matrix, and
  neither does the table function once loading and normalization have succeeded.
\<close>

theorem C6_unknown_method_key_error:
  assumes "meth \<notin> {''pearson'', ''spearman''}" "df_columns feats \<noteq> []" "df_columns tgt \<noteq> []"
  shows "correlate ext meth feats tgt = Inl (KeyError meth) \<and>
         (table_import ext art = Inr feats0 \<longrightarrow> table_normalize ext nrm feats0 = Inr feats \<longrightarrow>
          cross_association_table ext art tgt meth nrm alpha multitest nsig = Inl (KeyError meth))"
  using correlate_unknown_method [OF assms]
  by (simp add: cross_association_table_def table_before_sort_def)

theorem C6_unknown_method_witness:
  "correlate example_externals ''kendall'' example_feats example_target = Inl (KeyError ''kendall'') \<and>
   cross_association_table example_externals (ArtifactFrame example_feats) example_target
     ''kendall'' None (1/20) ''fdr_bh'' 0 = Inl (KeyError ''kendall'')"
proof -
  have m: "''kendall'' \<notin> {''pearson'', ''spearman''}" by simp
  have f: "df_columns example_feats \<noteq> []" by (simp add: example_feats_def)
  have t: "df_columns example_target \<noteq> []" by (simp add: example_target_def)
  have n: "table_normalize example_externals None example_feats = Inr example_feats"
    by (simp add: table_normalize_def)
  from C6_unknown_method_key_error [OF m f t, of example_externals "ArtifactFrame example_feats" example_feats None]
  show ?thesis using example_import n by simp
qed

text \<open>
  Claim C5, amended. For a non-empty string other than \<^verbatim>\<open>log10\<close>, \<^verbatim>\<open>clr\<close> and
  \<^verbatim>\<open>zscore\<close>, the normalization step of the table function raises ValueError with the
  message \<^verbatim>\<open>Incorrect normalization method: '<the string>'\<close>, and the call returns no
  table. The helper of \<^verbatim>\<open>utils.py\<close> raises ValueError naming the string for every string
  other than the three, the empty one included.
\<close>

theorem C5_unknown_normalization_value_error:
  assumes "s \<notin> {''log10'', ''clr'', ''zscore''}"
  shows "(s \<noteq> [] \<longrightarrow>
            table_normalize ext (Some s) feats =
              Inl (ValueError (''Incorrect normalization method: '' @ quoted s)) \<and>
            (table_import ext art = Inr feats \<longrightarrow>
             cross_association_table ext art tgt meth (Some s) alpha multitest nsig =
               Inl (ValueError (''Incorrect normalization method: '' @ quoted s)))) \<and>
         normalize_feature_table ext feats (Some s) =
           Inl (ValueError (''Incorrect normalization method: '' @ s))"
  using assms
  by (simp add: table_normalize_def normalize_feature_table_def cross_association_table_def
        table_before_sort_def)

theorem C5_unknown_normalization_witness:
  "table_normalize example_externals (Some ''none'') example_feats =
     Inl (ValueError (''Incorrect normalization method: '' @ quoted ''none'')) \<and>
   cross_association_table example_externals (ArtifactFrame example_feats) example_target
     ''pearson'' (Some ''none'') (1/20) ''fdr_bh'' 0 =
     Inl (ValueError (''Incorrect normalization method: '' @ quoted ''none'')) \<and>
   normalize_feature_table example_externals example_feats (Some ''none'') =
     Inl (ValueError ''Incorrect normalization method: none'')"
proof -
  have s: "''none'' \<notin> {''log10'', ''clr'', ''zscore''}" by simp
  from C5_unknown_normalization_value_error [OF s, of example_externals example_feats "ArtifactFrame example_feats"]
  show ?thesis using example_import by simp
qed

lemma clr_name_error:
  assumes "df_index feats \<noteq> []"
  shows "table_normalize ext (Some ''clr'') feats = Inl (NameError ''clr'')"
    and "normalize_feature_table ext feats (Some ''clr'') = Inl (NameError ''clr'')"
proof -
  have r: "[0..<length (df_index feats)] = 0 # [Suc 0..<length (df_index feats)]"
    using assms by (simp add: upt_conv_Cons)
  show "table_normalize ext (Some ''clr'') feats = Inl (NameError ''clr'')"
    by (simp add: table_normalize_def apply_rows_broadcast_def frame_rows_def r
          load_global_def module_globals_def)
  show "normalize_feature_table ext feats (Some ''clr'') = Inl (NameError ''clr'')"
    by (simp add: normalize_feature_table_def apply_rows_broadcast_def frame_rows_def r
          load_global_def utils_globals_def)
qed

end
